theory Spec2Isabelle
  imports Complex_Main "HOL-Library.Word"
begin

section \<open>The lookup-key table (bosscore/lookup.py)\<close>

text \<open>
  A row of the \<^verbatim>\<open>lookup\<close> table is the dictionary \<^verbatim>\<open>lookup_data\<close> that
  \<^verbatim>\<open>LookUpKey.add_lookup\<close> hands to the serializer. The optional arguments of
  \<^verbatim>\<open>add_lookup\<close> default to \<^verbatim>\<open>None\<close>, hence the option types. The table is the list
  of rows in insertion order.
\<close>

record lookup_data =
  lookup_key :: string
  boss_key :: string
  collection_name :: string
  experiment_name :: "string option"
  channel_layer_name :: "string option"

type_synonym lookup_table = "lookup_data list"

text \<open>
  \<^verbatim>\<open>DoesNotExist\<close> and \<^verbatim>\<open>MultipleObjectsReturned\<close> are the two exceptions of the
  object manager's \<^verbatim>\<open>get\<close>. \<^verbatim>\<open>DuplicateKey\<close> is the error the specification names for
  a repeated \<^verbatim>\<open>add_lookup\<close>; no statement of lookup.py raises it.
\<close>

datatype lookup_error = DuplicateKey | DoesNotExist | MultipleObjectsReturned

text \<open>
  Modelled from the spec: \<^verbatim>\<open>BossLookupSerializer\<close> and the \<^verbatim>\<open>BossLookup\<close> model
  (bosscore/serializers.py and bosscore/models.py are not among the sources).
  The specification says that the store rejects a record whose exact
  (lookup key, boss key) pair already exists; \<open>is_valid\<close> is that check and
  \<open>save\<close> appends the row.
\<close>

definition is_valid :: "lookup_table \<Rightarrow> lookup_data \<Rightarrow> bool" where
  "is_valid db d =
     (\<not> list_ex (\<lambda>r. lookup_key r = lookup_key d \<and> boss_key r = boss_key d) db)"

definition save :: "lookup_table \<Rightarrow> lookup_data \<Rightarrow> lookup_table" where
  "save db d = db @ [d]"

text \<open>Python's \<^verbatim>\<open>str\<close> on a non-negative integer: its decimal digits.\<close>

definition digit_char :: "nat \<Rightarrow> char" where
  "digit_char d = ''0123456789'' ! d"

fun str :: "nat \<Rightarrow> string" where
  "str n = (if n < 10 then [digit_char n] else str (n div 10) @ [digit_char (n mod 10)])"

declare str.simps [simp del]

text \<open>
  Truth values of the arguments in the guard
  \<^verbatim>\<open>if collection_name and experiment_name and channel_layer_name and max_time_sample\<close>:
  \<^verbatim>\<open>None\<close>, the empty string and the integer 0 are false.
\<close>

definition truthy_str :: "string \<Rightarrow> bool" where
  "truthy_str s = (s \<noteq> [])"

definition truthy_opt_str :: "string option \<Rightarrow> bool" where
  "truthy_opt_str s = (case s of None \<Rightarrow> False | Some v \<Rightarrow> v \<noteq> [])"

definition truthy_opt_int :: "int option \<Rightarrow> bool" where
  "truthy_opt_int n = (case n of None \<Rightarrow> False | Some v \<Rightarrow> v \<noteq> 0)"

text \<open>
  The loop \<^verbatim>\<open>for time in range(max_time_sample+1)\<close>: each round overwrites the two
  keys of the same dictionary, starting from the base keys \<open>lk\<close> and \<open>bk\<close> (the
  arguments, not the keys of the previous round), and saves the row when the
  serializer accepts it.
\<close>

fun add_time_lookups ::
  "lookup_table \<Rightarrow> lookup_data \<Rightarrow> string \<Rightarrow> string \<Rightarrow> nat list \<Rightarrow> lookup_table" where
  "add_time_lookups db d lk bk [] = db"
| "add_time_lookups db d lk bk (t # ts) =
     (let d' = d\<lparr>lookup_key := lk @ ''&'' @ str t, boss_key := bk @ ''&'' @ str t\<rparr>
      in add_time_lookups (if is_valid db d' then save db d' else db) d' lk bk ts)"

text \<open>
  \<^verbatim>\<open>LookUpKey.add_lookup(lookup_key, boss_key, collection_name, experiment_name,
  channel_layer_name, max_time_sample)\<close>, with the table passed in and returned.
  The function has no \<^verbatim>\<open>raise\<close> and no \<^verbatim>\<open>else\<close> branch: a row the serializer
  rejects is skipped in silence, and when the base row is rejected nothing at all is
  written. \<^verbatim>\<open>range(n+1)\<close> is empty for a negative \<open>n\<close>.
\<close>

definition add_lookup ::
  "lookup_table \<Rightarrow> string \<Rightarrow> string \<Rightarrow> string \<Rightarrow> string option \<Rightarrow> string option \<Rightarrow>
     int option \<Rightarrow> lookup_error + lookup_table" where
  "add_lookup db lk bk cn en chn max_time_sample =
     (let d = \<lparr>lookup_key = lk, boss_key = bk, collection_name = cn,
                experiment_name = en, channel_layer_name = chn\<rparr>
      in if is_valid db d then
           (let db1 = save db d
            in if truthy_str cn \<and> truthy_opt_str en \<and> truthy_opt_str chn
                    \<and> truthy_opt_int max_time_sample
               then (case max_time_sample of
                       None \<Rightarrow> Inr db1
                     | Some n \<Rightarrow> Inr (add_time_lookups db1 d lk bk [0..<nat (n + 1)]))
               else Inr db1)
         else Inr db)"

text \<open>
  \<^verbatim>\<open>LookUpKey.get_lookup_key(bkey)\<close> is \<^verbatim>\<open>BossLookup.objects.get(boss_key=bkey)\<close>:
  the rows whose boss key equals \<open>bkey\<close> are selected; exactly one is returned,
  none raises \<^verbatim>\<open>DoesNotExist\<close>, several raise \<^verbatim>\<open>MultipleObjectsReturned\<close>.
\<close>

definition get_lookup_key :: "lookup_table \<Rightarrow> string \<Rightarrow> lookup_error + lookup_data" where
  "get_lookup_key db bkey =
     (case filter (\<lambda>r. boss_key r = bkey) db of
        [] \<Rightarrow> Inl DoesNotExist
      | [r] \<Rightarrow> Inr r
      | _ \<Rightarrow> Inl MultipleObjectsReturned)"

text \<open>
  The row the specification expects for the time value \<open>t\<close>: the base row \<open>d\<close>
  with \<^verbatim>\<open>&\<close> and the decimal digits of \<open>t\<close> appended to each of the two base keys.
\<close>

definition time_row :: "lookup_data \<Rightarrow> string \<Rightarrow> string \<Rightarrow> nat \<Rightarrow> lookup_data" where
  "time_row d lk bk t =
     d\<lparr>lookup_key := lk @ ''&'' @ str t, boss_key := bk @ ''&'' @ str t\<rparr>"

text \<open>
  The invariant of the table under the serializer's check: no two rows carry the same
  pair of keys. The empty table has it and \<open>add_lookup\<close> keeps it.
\<close>

definition unique_pairs :: "lookup_table \<Rightarrow> bool" where
  "unique_pairs db = distinct (map (\<lambda>r. (lookup_key r, boss_key r)) db)"

section \<open>The cutout parsers (bossspatialdb/parsers.py)\<close>

subsection \<open>Exceptions, error codes and results\<close>

type_synonym bytes = "8 word list"

text \<open>
  The members of \<^verbatim>\<open>ErrorCodes\<close> that parsers.py names; \<open>ErrorCode n\<close> stands for
  any other code a \<^verbatim>\<open>BossError\<close> raised by request validation carries.
\<close>

datatype error_code =
    UNHANDLED_EXCEPTION
  | TYPE_ERROR
  | REQUEST_TOO_LARGE
  | BOSS_SYSTEM_ERROR
  | DATATYPE_DOES_NOT_MATCH
  | DATA_DIMENSION_MISMATCH
  | ErrorCode nat

text \<open>
  The exceptions the \<^verbatim>\<open>except\<close> clauses tell apart, each with its message.
  \<open>OtherException cls msg\<close> is any other exception class, for instance
  \<^verbatim>\<open>zlib.error\<close> or the block codec's own error class.
\<close>

datatype exn =
    BossError string error_code
  | MemoryError string
  | EOFError string
  | ValueError string
  | KeyError string
  | OtherException string string

fun exn_str :: "exn \<Rightarrow> string" where
  "exn_str (BossError m c) = m"
| "exn_str (MemoryError m) = m"
| "exn_str (EOFError m) = m"
| "exn_str (ValueError m) = m"
| "exn_str (KeyError k) = CHR 0x27 # k @ [CHR 0x27]"
| "exn_str (OtherException cls m) = m"

subsection \<open>Requests, resources and arrays\<close>

text \<open>
  What the parsers read of a \<^verbatim>\<open>BossRequest\<close> (bosscore/request.py is not among the
  sources): the three spans, the time range returned by \<^verbatim>\<open>get_time()\<close> as its
  \<^verbatim>\<open>start\<close> and \<^verbatim>\<open>stop\<close>, and the flag \<^verbatim>\<open>time_request\<close>. A span is the length
  of a validated half-open range, hence a natural number.
\<close>

record request =
  x_span :: nat
  y_span :: nat
  z_span :: nat
  time_start :: int
  time_stop :: int
  time_request :: bool

text \<open>
  What the parsers read of the resource (spdb is a separate library):
  \<^verbatim>\<open>get_data_type()\<close>, \<^verbatim>\<open>get_bit_depth()\<close> (\<open>None\<close> when it raises
  \<^verbatim>\<open>ValueError\<close>) and the element size in bytes of \<^verbatim>\<open>get_numpy_data_type()\<close>
  (\<open>None\<close> when it raises).
\<close>

record resource =
  data_type :: string
  bit_depth :: "int option"
  numpy_data_type :: "nat option"

text \<open>
  A numpy array: its shape, the size of an element in bytes, and its elements in
  row-major (C) order, each element the bytes that encode it.
\<close>

record ndarray =
  shape :: "nat list"
  itemsize :: nat
  elems :: "bytes list"

text \<open>The offset of an index in row-major order, and numpy's indexing by it.\<close>

definition c_offset :: "nat list \<Rightarrow> nat list \<Rightarrow> nat" where
  "c_offset dims idx = foldl (\<lambda>acc (d, i). acc * d + i) 0 (zip dims idx)"

definition nd_item :: "ndarray \<Rightarrow> nat list \<Rightarrow> bytes" where
  "nd_item a idx = elems a ! c_offset (shape a) idx"

primrec chunks :: "nat \<Rightarrow> nat \<Rightarrow> 'a list \<Rightarrow> 'a list list" where
  "chunks k 0 xs = []"
| "chunks k (Suc n) xs = take k xs # chunks k n (drop k xs)"

text \<open>
  \<^verbatim>\<open>np.fromstring(raw_data, dtype=...)\<close>: a flat array of the elements of the given
  size; \<^verbatim>\<open>ValueError\<close> when the length of the buffer is not a multiple of the
  element size.
\<close>

definition np_fromstring :: "bytes \<Rightarrow> nat \<Rightarrow> exn + ndarray" where
  "np_fromstring raw_data sz =
     (if sz = 0 then Inl (ValueError ''itemsize cannot be zero'')
      else if length raw_data mod sz \<noteq> 0
      then Inl (ValueError ''string size must be a multiple of element size'')
      else Inr \<lparr>shape = [length raw_data div sz], itemsize = sz,
                elems = chunks sz (length raw_data div sz) raw_data\<rparr>)"

text \<open>
  \<^verbatim>\<open>np.reshape(a, dims, order='C')\<close> for non-negative dimensions: the same elements
  in the same row-major order under the new shape; \<^verbatim>\<open>ValueError\<close> when the number
  of elements is not the product of the dimensions.
\<close>

definition np_reshape :: "ndarray \<Rightarrow> nat list \<Rightarrow> exn + ndarray" where
  "np_reshape a dims =
     (if prod_list dims = length (elems a) then Inr (a\<lparr>shape := dims\<rparr>)
      else Inl (ValueError ''cannot reshape array''))"

subsection \<open>The request stream\<close>

text \<open>
  The request body: the bytes not yet read, the exception \<^verbatim>\<open>read()\<close> raises if it
  raises, and the number of calls of \<^verbatim>\<open>read()\<close> so far. \<^verbatim>\<open>read()\<close> without a size
  returns everything that is left.
\<close>

record stream =
  unread :: bytes
  read_raises :: "exn option"
  reads :: nat

definition stream_read :: "stream \<Rightarrow> (exn + bytes) \<times> stream" where
  "stream_read s =
     (case read_raises s of
        Some e \<Rightarrow> (Inl e, s\<lparr>reads := Suc (reads s)\<rparr>)
      | None \<Rightarrow> (Inr (unread s), s\<lparr>unread := [], reads := Suc (reads s)\<rparr>))"

text \<open>\<^verbatim>\<open>ConsumeReqMixin.consume_request\<close>: read, and pass on any exception.\<close>

definition consume_request :: "stream \<Rightarrow> stream" where
  "consume_request s = snd (stream_read s)"

subsection \<open>What the parsers call outside this file\<close>

text \<open>
  The keyword arguments of the route, and the dictionary \<^verbatim>\<open>request_args\<close> built
  from them (a value is a string or \<^verbatim>\<open>None\<close>).
\<close>

record parser_context =
  kwargs :: "string \<rightharpoonup> string"

type_synonym request_args = "string \<rightharpoonup> string option"

text \<open>
  The constructors \<^verbatim>\<open>BossRequest\<close> (which holds the HTTP request of the parser
  context) and \<^verbatim>\<open>spdb.project.BossResourceDjango\<close>, the setting
  \<^verbatim>\<open>settings.CUTOUT_MAX_SIZE\<close>, and the four library calls that decompress or parse
  a payload, each returning its value or the exception it raises.
\<close>

record externals =
  BossRequest :: "request_args \<Rightarrow> exn + request"
  BossResourceDjango :: "request \<Rightarrow> exn + resource"
  CUTOUT_MAX_SIZE :: int
  blosc_decompress :: "bytes \<Rightarrow> exn + bytes"
  blosc_unpack_array :: "bytes \<Rightarrow> exn + ndarray"
  zlib_decompress :: "bytes \<Rightarrow> exn + bytes"
  np_load :: "bytes \<Rightarrow> exn + ndarray"

subsection \<open>True division\<close>

text \<open>
  Python's \<^verbatim>\<open>/\<close> on two integers is true division: the result is the quotient
  rounded correctly to a double, that is to 53 significant bits with a tie going to
  the even neighbour, and \<^verbatim>\<open>OverflowError\<close> is raised when the rounded quotient
  is \<open>2 ^ 1024\<close> or more. A division by 8 or by 4 only changes the exponent of a
  double, so the double \<^verbatim>\<open>product / 8\<close> is the product rounded to 53 significant
  bits and divided by 8 exactly. (A product of integers that is not 0 is at least 1
  in absolute value, so its quotient by 32 is far from the underflow threshold.)

  \<open>bit_length n\<close> is the number of binary digits of a positive integer, as Python's
  \<^verbatim>\<open>int.bit_length\<close>; \<open>round_bits k m\<close> rounds a non-negative integer to \<open>k\<close>
  significant bits, ties to even; \<open>round_to_double p\<close> is the result for an integer
  of either sign.
\<close>

function bit_length :: "int \<Rightarrow> nat" where
  "bit_length n = (if n \<le> 0 then 0 else Suc (bit_length (n div 2)))"
  by pat_completeness auto

termination
  by (relation "measure nat") auto

declare bit_length.simps [simp del]

definition round_bits :: "nat \<Rightarrow> int \<Rightarrow> int" where
  "round_bits k m =
     (let n = bit_length m
      in if n \<le> k then m
         else let sh = n - k; q = m div 2 ^ sh; r = m mod 2 ^ sh; h = 2 ^ (sh - 1);
                  q' = (if h < r \<or> (r = h \<and> odd q) then q + 1 else q)
              in q' * 2 ^ sh)"

definition round_to_double :: "int \<Rightarrow> int" where
  "round_to_double p = sgn p * round_bits 53 \<bar>p\<bar>"

subsection \<open>is_too_large\<close>

text \<open>
  \<^verbatim>\<open>is_too_large(request_obj, bit_depth)\<close>, with \<^verbatim>\<open>settings.CUTOUT_MAX_SIZE\<close> as
  its first argument. The spans and the bit depth are integers, so the product is
  exact and \<^verbatim>\<open>/ 8\<close> is the one operation that rounds: \<open>rounded\<close> is 8 times the
  double \<^verbatim>\<open>total_bytes\<close>, and the division raises \<^verbatim>\<open>OverflowError\<close> when
  \<open>rounded\<close> is \<open>2 ^ 1027\<close> or more, that is when it has more than 1027 binary
  digits. \<^verbatim>\<open>total_bytes /= 4\<close> is exact, and so is Python's comparison of a double
  with an integer. The exception is not caught by any of the parsers.
\<close>

definition is_too_large :: "int \<Rightarrow> request \<Rightarrow> int \<Rightarrow> exn + bool" where
  "is_too_large max_size request_obj bd =
     (let t_span = time_stop request_obj - time_start request_obj;
          product = int (x_span request_obj) * int (y_span request_obj)
                      * int (z_span request_obj) * t_span * bd;
          rounded = round_to_double product
      in if 1027 < bit_length \<bar>rounded\<bar>
         then Inl (OtherException ''OverflowError''
                     ''integer division result too large for a float'')
         else let total_bytes = (of_int rounded :: rat) / 8;
                  total_bytes' = (if bd = 64 then total_bytes / 4 else total_bytes)
              in if total_bytes' > of_int max_size then Inr True else Inr False)"

text \<open>
  The byte volume as the specification writes it,
  \<^verbatim>\<open>xSpan * ySpan * zSpan * tSpan * bitDepth / 8\<close>, as a rational number.
\<close>

definition byte_volume :: "request \<Rightarrow> int \<Rightarrow> rat" where
  "byte_volume r bd =
     of_nat (x_span r) * of_nat (y_span r) * of_nat (z_span r)
       * of_int (time_stop r - time_start r) * of_int bd / 8"

subsection \<open>The three parsers\<close>

definition msg_unsupported :: "resource \<Rightarrow> string" where
  "msg_unsupported r = ''Unsupported data type provided to parser: '' @ data_type r"

definition msg_too_large :: string where
  "msg_too_large = ''Cutout request is over 500MB when uncompressed. Reduce cutout dimensions.''"

definition msg_memory :: string where
  "msg_memory = ''Ran out of memory decompressing data.''"

definition msg_decompress :: string where
  "msg_decompress = ''Failed to decompress data. Verify the datatype/bitdepth of your data ''
     @ ''matches the channel.''"

definition msg_unpack :: string where
  "msg_unpack = ''Failed to unpack data. Verify the datatype of your POSTed data and ''
     @ ''xyz dimensions used in the POST URL.''"

text \<open>
  What \<^verbatim>\<open>parse\<close> does: it raises, it returns a \<^verbatim>\<open>BossParserError\<close>, or it returns
  the triple \<^verbatim>\<open>(req, resource, parsed_data)\<close>.
\<close>

datatype parse_result =
    Raised exn
  | BossParserError string error_code
  | Parsed request resource ndarray

text \<open>
  The first \<^verbatim>\<open>try\<close> block, the same text in the three parsers: the seven
  subscripts of \<^verbatim>\<open>parser_context['kwargs']\<close> in the order written (a missing key
  raises \<^verbatim>\<open>KeyError\<close>), \<^verbatim>\<open>time_args\<close> from \<^verbatim>\<open>t_range\<close> when it is there and
  \<^verbatim>\<open>None\<close> otherwise, then the constructor.
\<close>

definition make_request_args :: "(string \<rightharpoonup> string) \<Rightarrow> exn + request_args" where
  "make_request_args kw =
     (case find (\<lambda>k. kw k = None)
             [''collection'', ''experiment'', ''channel'', ''resolution'',
              ''x_range'', ''y_range'', ''z_range''] of
        Some k \<Rightarrow> Inl (KeyError k)
      | None \<Rightarrow>
          Inr [''service'' \<mapsto> Some ''cutout'',
               ''collection_name'' \<mapsto> kw ''collection'',
               ''experiment_name'' \<mapsto> kw ''experiment'',
               ''channel_name'' \<mapsto> kw ''channel'',
               ''resolution'' \<mapsto> kw ''resolution'',
               ''x_args'' \<mapsto> kw ''x_range'',
               ''y_args'' \<mapsto> kw ''y_range'',
               ''z_args'' \<mapsto> kw ''z_range'',
               ''time_args'' \<mapsto> kw ''t_range''])"

definition make_request :: "externals \<Rightarrow> parser_context \<Rightarrow> exn + request" where
  "make_request ext ctx =
     (case make_request_args (kwargs ctx) of
        Inl e \<Rightarrow> Inl e
      | Inr args \<Rightarrow> BossRequest ext args)"

text \<open>
  Its two handlers, \<^verbatim>\<open>except BossError as err\<close> and \<^verbatim>\<open>except Exception as err\<close>
  (the call of \<^verbatim>\<open>consume_request\<close> that precedes each \<^verbatim>\<open>return\<close> is in the
  parsers below).
\<close>

fun request_failure :: "exn \<Rightarrow> parse_result" where
  "request_failure (BossError m c) = BossParserError m c"
| "request_failure err = BossParserError (exn_str err) UNHANDLED_EXCEPTION"

text \<open>
  The handlers of the decompression block of \<^verbatim>\<open>BloscParser\<close>:
  \<^verbatim>\<open>except MemoryError\<close>, then a bare \<^verbatim>\<open>except\<close>.
\<close>

fun blosc_failure :: "exn \<Rightarrow> parse_result" where
  "blosc_failure (MemoryError m) = BossParserError msg_memory BOSS_SYSTEM_ERROR"
| "blosc_failure err = BossParserError msg_decompress DATATYPE_DOES_NOT_MATCH"

text \<open>
  The handler of its reshape block, \<^verbatim>\<open>except ValueError\<close>; any other exception
  leaves \<^verbatim>\<open>parse\<close>.
\<close>

fun reshape_failure :: "exn \<Rightarrow> parse_result" where
  "reshape_failure (ValueError m) = BossParserError msg_unpack DATA_DIMENSION_MISMATCH"
| "reshape_failure err = Raised err"

text \<open>
  The handlers of the decompression block of \<^verbatim>\<open>BloscPythonParser\<close> and of
  \<^verbatim>\<open>NpygzParser\<close>: \<^verbatim>\<open>except MemoryError\<close> and \<^verbatim>\<open>except EOFError\<close>; any other
  exception leaves \<^verbatim>\<open>parse\<close>.
\<close>

fun unpack_failure :: "exn \<Rightarrow> parse_result" where
  "unpack_failure (MemoryError m) = BossParserError msg_memory BOSS_SYSTEM_ERROR"
| "unpack_failure (EOFError m) = BossParserError msg_unpack DATA_DIMENSION_MISMATCH"
| "unpack_failure err = Raised err"

text \<open>
  The shape \<^verbatim>\<open>BloscParser.parse\<close> reshapes to. \<^verbatim>\<open>len(req.get_time())\<close> is the
  length of a \<^verbatim>\<open>range\<close>, 0 when the stop is not above the start.
\<close>

definition target_shape :: "request \<Rightarrow> nat list" where
  "target_shape req =
     (if time_request req
      then [nat (time_stop req - time_start req), z_span req, y_span req, x_span req]
      else [z_span req, y_span req, x_span req])"

text \<open>
  The body of the decompression block of \<^verbatim>\<open>BloscParser.parse\<close>:
  \<^verbatim>\<open>blosc.decompress(stream.read())\<close>, then \<^verbatim>\<open>np.fromstring\<close> with the numpy type
  of the resource.
\<close>

definition blosc_decode :: "externals \<Rightarrow> resource \<Rightarrow> stream \<Rightarrow> (exn + ndarray) \<times> stream" where
  "blosc_decode ext res s =
     (case stream_read s of
        (Inl e, s') \<Rightarrow> (Inl e, s')
      | (Inr payload, s') \<Rightarrow>
          (case blosc_decompress ext payload of
             Inl e \<Rightarrow> (Inl e, s')
           | Inr raw_data \<Rightarrow>
               (case numpy_data_type res of
                  None \<Rightarrow> (Inl (ValueError ''Unsupported datatype provided to resource''), s')
                | Some sz \<Rightarrow> (np_fromstring raw_data sz, s'))))"

definition BloscParser_parse ::
  "externals \<Rightarrow> stream \<Rightarrow> parser_context \<Rightarrow> parse_result \<times> stream" where
  "BloscParser_parse ext s ctx =
     (case make_request ext ctx of
        Inl err \<Rightarrow> (request_failure err, consume_request s)
      | Inr req \<Rightarrow>
          (case BossResourceDjango ext req of
             Inl err \<Rightarrow> (Raised err, s)
           | Inr res \<Rightarrow>
               (case bit_depth res of
                  None \<Rightarrow> (BossParserError (msg_unsupported res) TYPE_ERROR, s)
                | Some bd \<Rightarrow>
                    (case is_too_large (CUTOUT_MAX_SIZE ext) req bd of
                       Inl err \<Rightarrow> (Raised err, s)
                     | Inr too_large \<Rightarrow>
                         if too_large
                         then (BossParserError msg_too_large REQUEST_TOO_LARGE, s)
                         else
                           (case blosc_decode ext res s of
                              (Inl err, s') \<Rightarrow> (blosc_failure err, s')
                            | (Inr data_mat, s') \<Rightarrow>
                                (case np_reshape data_mat (target_shape req) of
                                   Inl err \<Rightarrow> (reshape_failure err, s')
                                 | Inr parsed_data \<Rightarrow> (Parsed req res parsed_data, s')))))))"

text \<open>The body of the decompression block of \<^verbatim>\<open>BloscPythonParser.parse\<close>.\<close>

definition blosc_python_decode :: "externals \<Rightarrow> stream \<Rightarrow> (exn + ndarray) \<times> stream" where
  "blosc_python_decode ext s =
     (case stream_read s of
        (Inl e, s') \<Rightarrow> (Inl e, s')
      | (Inr payload, s') \<Rightarrow> (blosc_unpack_array ext payload, s'))"

definition BloscPythonParser_parse ::
  "externals \<Rightarrow> stream \<Rightarrow> parser_context \<Rightarrow> parse_result \<times> stream" where
  "BloscPythonParser_parse ext s ctx =
     (case make_request ext ctx of
        Inl err \<Rightarrow> (request_failure err, consume_request s)
      | Inr req \<Rightarrow>
          (case BossResourceDjango ext req of
             Inl err \<Rightarrow> (Raised err, s)
           | Inr res \<Rightarrow>
               (case bit_depth res of
                  None \<Rightarrow> (BossParserError (msg_unsupported res) TYPE_ERROR, consume_request s)
                | Some bd \<Rightarrow>
                    (case is_too_large (CUTOUT_MAX_SIZE ext) req bd of
                       Inl err \<Rightarrow> (Raised err, s)
                     | Inr too_large \<Rightarrow>
                         if too_large
                         then (BossParserError msg_too_large REQUEST_TOO_LARGE, consume_request s)
                         else
                           (case blosc_python_decode ext s of
                              (Inl err, s') \<Rightarrow> (unpack_failure err, s')
                            | (Inr parsed_data, s') \<Rightarrow> (Parsed req res parsed_data, s'))))))"

text \<open>
  The body of the decompression block of \<^verbatim>\<open>NpygzParser.parse\<close>:
  \<^verbatim>\<open>zlib.decompress(stream.read())\<close>, then \<^verbatim>\<open>np.load\<close> on the bytes.
\<close>

definition npygz_decode :: "externals \<Rightarrow> stream \<Rightarrow> (exn + ndarray) \<times> stream" where
  "npygz_decode ext s =
     (case stream_read s of
        (Inl e, s') \<Rightarrow> (Inl e, s')
      | (Inr payload, s') \<Rightarrow>
          (case zlib_decompress ext payload of
             Inl e \<Rightarrow> (Inl e, s')
           | Inr data_bytes \<Rightarrow> (np_load ext data_bytes, s')))"

definition NpygzParser_parse ::
  "externals \<Rightarrow> stream \<Rightarrow> parser_context \<Rightarrow> parse_result \<times> stream" where
  "NpygzParser_parse ext s ctx =
     (case make_request ext ctx of
        Inl err \<Rightarrow> (request_failure err, consume_request s)
      | Inr req \<Rightarrow>
          (case BossResourceDjango ext req of
             Inl err \<Rightarrow> (Raised err, s)
           | Inr res \<Rightarrow>
               (case bit_depth res of
                  None \<Rightarrow> (BossParserError (msg_unsupported res) TYPE_ERROR, consume_request s)
                | Some bd \<Rightarrow>
                    (case is_too_large (CUTOUT_MAX_SIZE ext) req bd of
                       Inl err \<Rightarrow> (Raised err, s)
                     | Inr too_large \<Rightarrow>
                         if too_large
                         then (BossParserError msg_too_large REQUEST_TOO_LARGE, consume_request s)
                         else
                           (case npygz_decode ext s of
                              (Inl err, s') \<Rightarrow> (unpack_failure err, s')
                            | (Inr parsed_data, s') \<Rightarrow> (Parsed req res parsed_data, s'))))))"

subsection \<open>Concrete inputs\<close>

text \<open>
  Inputs on which the parsers are evaluated below: the keyword arguments of a cutout
  route, three requests, three resources and three request bodies. The ceiling is
  520000000 bytes, in line with the 500MB of the error message. Two more requests
  have an x span of \<open>2 ^ 53 + 1\<close>, which is no double, and of \<open>2 ^ 1024\<close>, which is
  beyond the doubles.
\<close>

definition example_context :: parser_context where
  "example_context =
     \<lparr>kwargs = map_of [(''collection'', ''col1''), (''experiment'', ''exp1''),
                        (''channel'', ''channel1''), (''resolution'', ''0''),
                        (''x_range'', ''0:2''), (''y_range'', ''0:2''), (''z_range'', ''0:1'')]\<rparr>"

definition small_request :: request where
  "small_request =
     \<lparr>x_span = 2, y_span = 2, z_span = 1, time_start = 0, time_stop = 1, time_request = False\<rparr>"

definition large_request :: request where
  "large_request =
     \<lparr>x_span = 1000, y_span = 1000, z_span = 1000, time_start = 0, time_stop = 1,
      time_request = False\<rparr>"

definition annotation_request :: request where
  "annotation_request =
     \<lparr>x_span = 1000, y_span = 1000, z_span = 100, time_start = 0, time_stop = 1,
      time_request = False\<rparr>"

definition wide_request :: request where
  "wide_request =
     \<lparr>x_span = 9007199254740993, y_span = 1, z_span = 1, time_start = 0, time_stop = 1,
      time_request = False\<rparr>"

definition huge_request :: request where
  "huge_request =
     \<lparr>x_span = 2 ^ 1024, y_span = 1, z_span = 1, time_start = 0, time_stop = 1,
      time_request = False\<rparr>"

definition uint8_resource :: resource where
  "uint8_resource = \<lparr>data_type = ''uint8'', bit_depth = Some 8, numpy_data_type = Some 1\<rparr>"

definition uint64_resource :: resource where
  "uint64_resource = \<lparr>data_type = ''uint64'', bit_depth = Some 64, numpy_data_type = Some 8\<rparr>"

definition float32_resource :: resource where
  "float32_resource = \<lparr>data_type = ''float32'', bit_depth = None, numpy_data_type = None\<rparr>"

text \<open>
  Stand-ins for the library calls, so that a payload can be told corrupt or sound: a
  sound payload starts with the byte 1 and holds the data after it; on anything else
  the codec raises its own error class. The stand-in for \<^verbatim>\<open>blosc.unpack_array\<close> and
  \<^verbatim>\<open>np.load\<close> reads a flat array of single bytes, whatever the request says, and
  raises \<^verbatim>\<open>EOFError\<close> on an empty buffer.
\<close>

definition example_decompress :: "string \<Rightarrow> bytes \<Rightarrow> exn + bytes" where
  "example_decompress cls payload =
     (case payload of
        [] \<Rightarrow> Inl (OtherException cls ''incomplete or truncated stream'')
      | b # data \<Rightarrow>
          if b = 1 then Inr data else Inl (OtherException cls ''incorrect header check''))"

definition example_load :: "bytes \<Rightarrow> exn + ndarray" where
  "example_load data =
     (if data = [] then Inl (EOFError ''No data left in file'')
      else Inr \<lparr>shape = [length data], itemsize = 1, elems = map (\<lambda>b. [b]) data\<rparr>)"

definition example_externals :: "request \<Rightarrow> resource \<Rightarrow> externals" where
  "example_externals req res =
     \<lparr>BossRequest = (\<lambda>args. Inr req),
      BossResourceDjango = (\<lambda>r. Inr res),
      CUTOUT_MAX_SIZE = 520000000,
      blosc_decompress = example_decompress ''blosc_extension.error'',
      blosc_unpack_array =
        (\<lambda>payload. case example_decompress ''blosc_extension.error'' payload of
                      Inl e \<Rightarrow> Inl e | Inr data \<Rightarrow> example_load data),
      zlib_decompress = example_decompress ''zlib.error'',
      np_load = example_load\<rparr>"

definition sound_body :: stream where
  "sound_body = \<lparr>unread = [1, 10, 20, 30, 40], read_raises = None, reads = 0\<rparr>"

definition short_body :: stream where
  "short_body = \<lparr>unread = [1, 7, 8, 9], read_raises = None, reads = 0\<rparr>"

definition corrupt_body :: stream where
  "corrupt_body = \<lparr>unread = [255, 254, 253], read_raises = None, reads = 0\<rparr>"

section \<open>Properties of the lookup table\<close>

lemma str_not_Nil: "str n \<noteq> []"
  by (subst str.simps) simp

subsection \<open>Decimal digits are injective\<close>

lemma digit_char_inj: "a < 10 \<Longrightarrow> b < 10 \<Longrightarrow> digit_char a = digit_char b \<Longrightarrow> a = b"
  unfolding digit_char_def
  by (auto simp: less_Suc_eq numeral_eq_Suc)

lemma str_inj: "str m = str n \<Longrightarrow> m = n"
proof (induction m arbitrary: n rule: str.induct)
  case (1 m)
  show ?case
  proof (cases "m < 10")
    case True
    note m = this
    show ?thesis
    proof (cases "n < 10")
      case True
      with m "1.prems" show ?thesis
        by (simp add: str.simps [of m] str.simps [of n] digit_char_inj)
    next
      case False
      with m "1.prems" str_not_Nil [of "n div 10"] show ?thesis
        by (simp add: str.simps [of m] str.simps [of n])
    qed
  next
    case False
    note m = this
    show ?thesis
    proof (cases "n < 10")
      case True
      with m "1.prems" str_not_Nil [of "m div 10"] show ?thesis
        by (simp add: str.simps [of m] str.simps [of n])
    next
      case False
      with m "1.prems" have e: "str (m div 10) = str (n div 10)"
        and d: "digit_char (m mod 10) = digit_char (n mod 10)"
        by (simp_all add: str.simps [of m] str.simps [of n])
      from "1.IH" [OF m e] have "m div 10 = n div 10" .
      moreover from d have "m mod 10 = n mod 10"
        by (intro digit_char_inj) simp_all
      ultimately show ?thesis
        by (metis div_mult_mod_eq)
    qed
  qed
qed

subsection \<open>What the time loop writes\<close>

lemma time_row_time_row [simp]: "time_row (time_row d lk bk t) lk bk t' = time_row d lk bk t'"
  by (simp add: time_row_def)

lemma is_valid_append:
  "is_valid (db @ [r]) d \<longleftrightarrow>
     is_valid db d \<and> \<not> (lookup_key r = lookup_key d \<and> boss_key r = boss_key d)"
  by (auto simp: is_valid_def list_ex_iff)

text \<open>The loop only appends, and every row it appends is a time row of the base row.\<close>

lemma add_time_lookups_rows:
  "\<exists>ts'. set ts' \<subseteq> set ts \<and> add_time_lookups db d lk bk ts = db @ map (time_row d lk bk) ts'"
proof (induction ts arbitrary: db d)
  case Nil
  show ?case by simp
next
  case (Cons t ts)
  let ?d = "time_row d lk bk t"
  let ?db = "if is_valid db ?d then save db ?d else db"
  from Cons.IH [of ?db ?d] obtain ts' where
    ts': "set ts' \<subseteq> set ts" "add_time_lookups ?db ?d lk bk ts = ?db @ map (time_row d lk bk) ts'"
    by auto
  show ?case
  proof (cases "is_valid db ?d")
    case True
    with ts' have "add_time_lookups db d lk bk (t # ts) = db @ map (time_row d lk bk) (t # ts')"
      by (simp add: time_row_def save_def Let_def)
    moreover from ts' have "set (t # ts') \<subseteq> set (t # ts)" by auto
    ultimately show ?thesis by blast
  next
    case False
    with ts' have "add_time_lookups db d lk bk (t # ts) = db @ map (time_row d lk bk) ts'"
      by (simp add: time_row_def Let_def)
    moreover from ts' have "set ts' \<subseteq> set (t # ts)" by auto
    ultimately show ?thesis by blast
  qed
qed

text \<open>When none of the time rows is in the table yet, the loop writes all of them.\<close>

lemma add_time_lookups_fresh:
  "distinct ts \<Longrightarrow> (\<forall>t \<in> set ts. is_valid db (time_row d lk bk t)) \<Longrightarrow>
     add_time_lookups db d lk bk ts = db @ map (time_row d lk bk) ts"
proof (induction ts arbitrary: db d)
  case Nil
  show ?case by simp
next
  case (Cons t ts)
  let ?d = "time_row d lk bk t"
  from Cons.prems have v: "is_valid db ?d" by simp
  have "\<forall>t' \<in> set ts. is_valid (db @ [?d]) (time_row ?d lk bk t')"
  proof
    fix t' assume t': "t' \<in> set ts"
    with Cons.prems have "t' \<noteq> t" by auto
    then have "str t \<noteq> str t'" using str_inj by blast
    then have "lookup_key ?d \<noteq> lookup_key (time_row d lk bk t')"
      by (simp add: time_row_def)
    with Cons.prems t' show "is_valid (db @ [?d]) (time_row ?d lk bk t')"
      by (simp add: is_valid_append)
  qed
  with Cons.prems
  have "add_time_lookups (db @ [?d]) ?d lk bk ts = (db @ [?d]) @ map (time_row ?d lk bk) ts"
    by (intro Cons.IH) simp_all
  with v show ?case
    by (simp add: time_row_def save_def Let_def)
qed

subsection \<open>Every row written by one call carries the names of the call\<close>

lemma add_lookup_appends:
  "\<exists>new. add_lookup db lk bk cn en chn mts = Inr (db @ new) \<and>
     (\<forall>r \<in> set new.
        r = \<lparr>lookup_key = lk, boss_key = bk, collection_name = cn,
              experiment_name = en, channel_layer_name = chn\<rparr> \<or>
        (\<exists>t. r = time_row \<lparr>lookup_key = lk, boss_key = bk, collection_name = cn,
                experiment_name = en, channel_layer_name = chn\<rparr> lk bk t))"
proof -
  let ?d = "\<lparr>lookup_key = lk, boss_key = bk, collection_name = cn,
                experiment_name = en, channel_layer_name = chn\<rparr>"
  show ?thesis
  proof (cases "is_valid db ?d")
    case False
    then have "add_lookup db lk bk cn en chn mts = Inr (db @ [])"
      by (simp add: add_lookup_def)
    then show ?thesis by (intro exI [of _ "[]"]) simp
  next
    case True
    note v = this
    show ?thesis
    proof (cases "truthy_str cn \<and> truthy_opt_str en \<and> truthy_opt_str chn \<and> truthy_opt_int mts")
      case False
      with v have "add_lookup db lk bk cn en chn mts = Inr (db @ [?d])"
        by (auto simp add: add_lookup_def save_def Let_def)
      then show ?thesis by (intro exI [of _ "[?d]"]) simp
    next
      case True
      then obtain n where n: "mts = Some n"
        by (cases mts) (auto simp: truthy_opt_int_def)
      from add_time_lookups_rows [of "[0..<nat (n + 1)]" "db @ [?d]" ?d lk bk]
      obtain ts' where ts': "add_time_lookups (db @ [?d]) ?d lk bk [0..<nat (n + 1)]
          = (db @ [?d]) @ map (time_row ?d lk bk) ts'"
        by blast
      with v True n
      have "add_lookup db lk bk cn en chn mts = Inr (db @ (?d # map (time_row ?d lk bk) ts'))"
        by (simp add: add_lookup_def save_def Let_def)
      then show ?thesis
        by (intro exI [of _ "?d # map (time_row ?d lk bk) ts'"]) auto
    qed
  qed
qed

text \<open>
  Claim C10. Every row that one call of \<open>add_lookup\<close> writes, the base row and each
  time-indexed row, carries the collection, experiment and channel names passed to
  the call: the loop changes the lookup key and the boss key and nothing else, so
  putting the base keys back into any written row gives the base row.
\<close>

theorem add_lookup_rows_share_names:
  assumes "add_lookup db lk bk cn en chn mts = Inr db'"
  shows "\<exists>new. db' = db @ new \<and>
           (\<forall>r \<in> set new.
              collection_name r = cn \<and> experiment_name r = en \<and> channel_layer_name r = chn \<and>
              r\<lparr>lookup_key := lk, boss_key := bk\<rparr> =
                \<lparr>lookup_key = lk, boss_key = bk, collection_name = cn,
                 experiment_name = en, channel_layer_name = chn\<rparr>)"
proof -
  let ?d = "\<lparr>lookup_key = lk, boss_key = bk, collection_name = cn,
             experiment_name = en, channel_layer_name = chn\<rparr>"
  from add_lookup_appends [of db lk bk cn en chn mts]
  obtain new where n1: "add_lookup db lk bk cn en chn mts = Inr (db @ new)"
    and n2: "\<forall>r \<in> set new. r = ?d \<or> (\<exists>t. r = time_row ?d lk bk t)"
    by blast
  from n1 assms have eq: "db' = db @ new" by simp
  have "\<forall>r \<in> set new.
          collection_name r = cn \<and> experiment_name r = en \<and> channel_layer_name r = chn \<and>
          r\<lparr>lookup_key := lk, boss_key := bk\<rparr> = ?d"
  proof
    fix r assume "r \<in> set new"
    with n2 consider "r = ?d" | t where "r = time_row ?d lk bk t" by blast
    then show "collection_name r = cn \<and> experiment_name r = en \<and> channel_layer_name r = chn \<and>
          r\<lparr>lookup_key := lk, boss_key := bk\<rparr> = ?d"
      by cases (simp_all add: time_row_def)
  qed
  with eq show ?thesis by blast
qed

theorem add_lookup_rows_share_names_witness:
  "add_lookup [] ''1&2&3'' ''col1&exp1&ch1'' ''col1'' (Some ''exp1'') (Some ''ch1'') (Some 2)
     = Inr [\<lparr>lookup_key = ''1&2&3'', boss_key = ''col1&exp1&ch1'', collection_name = ''col1'',
          experiment_name = Some ''exp1'', channel_layer_name = Some ''ch1''\<rparr>,
         \<lparr>lookup_key = ''1&2&3&0'', boss_key = ''col1&exp1&ch1&0'', collection_name = ''col1'',
          experiment_name = Some ''exp1'', channel_layer_name = Some ''ch1''\<rparr>,
         \<lparr>lookup_key = ''1&2&3&1'', boss_key = ''col1&exp1&ch1&1'', collection_name = ''col1'',
          experiment_name = Some ''exp1'', channel_layer_name = Some ''ch1''\<rparr>,
         \<lparr>lookup_key = ''1&2&3&2'', boss_key = ''col1&exp1&ch1&2'', collection_name = ''col1'',
          experiment_name = Some ''exp1'', channel_layer_name = Some ''ch1''\<rparr>]
   \<and> (\<exists>new. [\<lparr>lookup_key = ''1&2&3'', boss_key = ''col1&exp1&ch1'', collection_name = ''col1'',
          experiment_name = Some ''exp1'', channel_layer_name = Some ''ch1''\<rparr>,
         \<lparr>lookup_key = ''1&2&3&0'', boss_key = ''col1&exp1&ch1&0'', collection_name = ''col1'',
          experiment_name = Some ''exp1'', channel_layer_name = Some ''ch1''\<rparr>,
         \<lparr>lookup_key = ''1&2&3&1'', boss_key = ''col1&exp1&ch1&1'', collection_name = ''col1'',
          experiment_name = Some ''exp1'', channel_layer_name = Some ''ch1''\<rparr>,
         \<lparr>lookup_key = ''1&2&3&2'', boss_key = ''col1&exp1&ch1&2'', collection_name = ''col1'',
          experiment_name = Some ''exp1'', channel_layer_name = Some ''ch1''\<rparr>] = [] @ new
        \<and> (\<forall>r \<in> set new.
              collection_name r = ''col1'' \<and> experiment_name r = Some ''exp1''
              \<and> channel_layer_name r = Some ''ch1'' \<and>
              r\<lparr>lookup_key := ''1&2&3'', boss_key := ''col1&exp1&ch1''\<rparr> =
                \<lparr>lookup_key = ''1&2&3'', boss_key = ''col1&exp1&ch1'', collection_name = ''col1'',
                 experiment_name = Some ''exp1'', channel_layer_name = Some ''ch1''\<rparr>))"
proof -
  have h: "add_lookup [] ''1&2&3'' ''col1&exp1&ch1'' ''col1'' (Some ''exp1'') (Some ''ch1'') (Some 2)
     = Inr [\<lparr>lookup_key = ''1&2&3'', boss_key = ''col1&exp1&ch1'', collection_name = ''col1'',
          experiment_name = Some ''exp1'', channel_layer_name = Some ''ch1''\<rparr>,
         \<lparr>lookup_key = ''1&2&3&0'', boss_key = ''col1&exp1&ch1&0'', collection_name = ''col1'',
          experiment_name = Some ''exp1'', channel_layer_name = Some ''ch1''\<rparr>,
         \<lparr>lookup_key = ''1&2&3&1'', boss_key = ''col1&exp1&ch1&1'', collection_name = ''col1'',
          experiment_name = Some ''exp1'', channel_layer_name = Some ''ch1''\<rparr>,
         \<lparr>lookup_key = ''1&2&3&2'', boss_key = ''col1&exp1&ch1&2'', collection_name = ''col1'',
          experiment_name = Some ''exp1'', channel_layer_name = Some ''ch1''\<rparr>]"
    by code_simp
  from h add_lookup_rows_share_names [OF h] show ?thesis by (rule conjI)
qed

subsection \<open>A repeated call\<close>

lemma add_lookup_existing:
  "\<not> is_valid db \<lparr>lookup_key = lk, boss_key = bk, collection_name = cn,
                    experiment_name = en, channel_layer_name = chn\<rparr> \<Longrightarrow>
   add_lookup db lk bk cn en chn mts = Inr db"
  by (simp add: add_lookup_def)

lemma add_lookup_base_written:
  assumes "add_lookup db lk bk cn en chn mts = Inr db'"
  shows "list_ex (\<lambda>r. lookup_key r = lk \<and> boss_key r = bk) db'"
proof -
  let ?d = "\<lparr>lookup_key = lk, boss_key = bk, collection_name = cn,
             experiment_name = en, channel_layer_name = chn\<rparr>"
  show ?thesis
  proof (cases "is_valid db ?d")
    case False
    with assms have "db' = db" by (simp add: add_lookup_existing)
    with False show ?thesis by (simp add: is_valid_def)
  next
    case True
    from add_lookup_appends [of db lk bk cn en chn mts] assms
    obtain new where new: "db' = db @ new" by auto
    have "new \<noteq> [] \<and> hd new = ?d"
    proof (cases "truthy_str cn \<and> truthy_opt_str en \<and> truthy_opt_str chn \<and> truthy_opt_int mts")
      case False
      with True assms new show ?thesis
        by (auto simp add: add_lookup_def save_def Let_def)
    next
      case t: True
      then obtain n where n: "mts = Some n"
        by (cases mts) (auto simp: truthy_opt_int_def)
      from add_time_lookups_rows [of "[0..<nat (n + 1)]" "db @ [?d]" ?d lk bk]
      obtain ts' where "add_time_lookups (db @ [?d]) ?d lk bk [0..<nat (n + 1)]
          = (db @ [?d]) @ map (time_row ?d lk bk) ts'"
        by blast
      with True t n assms new show ?thesis
        by (auto simp add: add_lookup_def save_def Let_def)
    qed
    then have "?d \<in> set new" by (cases new) auto
    with new have "?d \<in> set db'" by simp
    then show ?thesis unfolding list_ex_iff by (intro bexI [of _ ?d]) simp_all
  qed
qed

text \<open>
  Claim C3, as the code has it. When a row with the exact pair of keys is already in the
  table, \<open>add_lookup\<close> does not fail: it returns normally and leaves the table as it
  was, so the existing row is not overwritten (not even when the call carries other
  names). In particular a call repeated with the same arguments returns normally and
  changes nothing.
\<close>

theorem add_lookup_duplicate_ignored:
  "(list_ex (\<lambda>r. lookup_key r = lk \<and> boss_key r = bk) db \<longrightarrow>
      add_lookup db lk bk cn en chn mts = Inr db)
   \<and> (add_lookup db lk bk cn en chn mts = Inr db' \<longrightarrow>
      add_lookup db' lk bk cn en chn mts = Inr db')"
proof (intro conjI impI)
  assume "list_ex (\<lambda>r. lookup_key r = lk \<and> boss_key r = bk) db"
  then show "add_lookup db lk bk cn en chn mts = Inr db"
    by (intro add_lookup_existing) (simp add: is_valid_def)
next
  assume "add_lookup db lk bk cn en chn mts = Inr db'"
  then have "list_ex (\<lambda>r. lookup_key r = lk \<and> boss_key r = bk) db'"
    by (rule add_lookup_base_written)
  then show "add_lookup db' lk bk cn en chn mts = Inr db'"
    by (intro add_lookup_existing) (simp add: is_valid_def)
qed

theorem add_lookup_duplicate_ignored_witness:
  "(list_ex (\<lambda>r. lookup_key r = ''1'' \<and> boss_key r = ''col1'')
       [\<lparr>lookup_key = ''1'', boss_key = ''col1'', collection_name = ''col1'',
         experiment_name = None, channel_layer_name = None\<rparr>]
    \<and> add_lookup [\<lparr>lookup_key = ''1'', boss_key = ''col1'', collection_name = ''col1'',
         experiment_name = None, channel_layer_name = None\<rparr>] ''1'' ''col1'' ''renamed'' None None None
       = Inr [\<lparr>lookup_key = ''1'', boss_key = ''col1'', collection_name = ''col1'',
         experiment_name = None, channel_layer_name = None\<rparr>])
   \<and> (add_lookup [] ''1'' ''col1'' ''col1'' None None None
       = Inr [\<lparr>lookup_key = ''1'', boss_key = ''col1'', collection_name = ''col1'',
         experiment_name = None, channel_layer_name = None\<rparr>]
    \<and> add_lookup [\<lparr>lookup_key = ''1'', boss_key = ''col1'', collection_name = ''col1'',
         experiment_name = None, channel_layer_name = None\<rparr>] ''1'' ''col1'' ''col1'' None None None
       = Inr [\<lparr>lookup_key = ''1'', boss_key = ''col1'', collection_name = ''col1'',
         experiment_name = None, channel_layer_name = None\<rparr>])"
proof -
  let ?db = "[\<lparr>lookup_key = ''1'', boss_key = ''col1'', collection_name = ''col1'',
         experiment_name = None, channel_layer_name = None\<rparr>]"
  have h1: "list_ex (\<lambda>r. lookup_key r = ''1'' \<and> boss_key r = ''col1'') ?db"
    by simp
  have h2: "add_lookup [] ''1'' ''col1'' ''col1'' None None None = Inr ?db"
    by code_simp
  from add_lookup_duplicate_ignored [of "''1''" "''col1''" ?db "''renamed''" None None None ?db] h1
  have c1: "add_lookup ?db ''1'' ''col1'' ''renamed'' None None None = Inr ?db"
    by blast
  from add_lookup_duplicate_ignored [of "''1''" "''col1''" "[]" "''col1''" None None None ?db] h2
  have c2: "add_lookup ?db ''1'' ''col1'' ''col1'' None None None = Inr ?db"
    by blast
  from h1 c1 h2 c2 show ?thesis by blast
qed

text \<open>
  The second of two identical calls does not fail with \<open>DuplicateKey\<close>.
\<close>

theorem add_lookup_duplicate_counterexample:
  "add_lookup [] ''1'' ''col1'' ''col1'' None None None
     = Inr [\<lparr>lookup_key = ''1'', boss_key = ''col1'', collection_name = ''col1'',
             experiment_name = None, channel_layer_name = None\<rparr>]
   \<and> add_lookup [\<lparr>lookup_key = ''1'', boss_key = ''col1'', collection_name = ''col1'',
             experiment_name = None, channel_layer_name = None\<rparr>]
        ''1'' ''col1'' ''col1'' None None None \<noteq> Inl DuplicateKey"
  by code_simp

subsection \<open>The time-indexed rows of a fresh channel\<close>

lemma time_row_inj: "time_row d lk bk t = time_row d lk bk t' \<Longrightarrow> t = t'"
proof -
  assume "time_row d lk bk t = time_row d lk bk t'"
  then have "lookup_key (time_row d lk bk t) = lookup_key (time_row d lk bk t')" by simp
  then have "str t = str t'" by (simp add: time_row_def)
  then show ?thesis by (rule str_inj)
qed

lemma distinct_time_rows: "distinct ts \<Longrightarrow> distinct (map (time_row d lk bk) ts)"
  by (auto simp: distinct_map inj_on_def dest: time_row_inj)

text \<open>
  Claim C4, as the code has it. For a maximal time sample \<open>N\<close> of at least 1, non-empty
  collection, experiment and channel names, and a table that holds neither the base pair
  of keys nor any of the time-indexed pairs, \<open>add_lookup\<close> appends the base row and
  then exactly \<open>N + 1\<close> time-indexed rows, one for each \<open>t\<close> from 0 to \<open>N\<close> in this
  order, pairwise different, each with \<^verbatim>\<open>&\<close> and the digits of \<open>t\<close> appended to the
  base lookup key and to the base boss key.
\<close>

theorem add_lookup_time_rows:
  assumes names: "cn \<noteq> []" "en \<noteq> []" "chn \<noteq> []"
    and N: "0 < N"
    and base: "is_valid db \<lparr>lookup_key = lk, boss_key = bk, collection_name = cn,
                 experiment_name = Some en, channel_layer_name = Some chn\<rparr>"
    and fresh: "list_all (\<lambda>t. is_valid db
                  \<lparr>lookup_key = lk @ ''&'' @ str t, boss_key = bk @ ''&'' @ str t,
                   collection_name = cn, experiment_name = Some en,
                   channel_layer_name = Some chn\<rparr>) [0..<N + 1]"
  shows "add_lookup db lk bk cn (Some en) (Some chn) (Some (int N)) =
           Inr (db @ \<lparr>lookup_key = lk, boss_key = bk, collection_name = cn,
                      experiment_name = Some en, channel_layer_name = Some chn\<rparr>
                  # map (\<lambda>t. \<lparr>lookup_key = lk @ ''&'' @ str t, boss_key = bk @ ''&'' @ str t,
                              collection_name = cn, experiment_name = Some en,
                              channel_layer_name = Some chn\<rparr>) [0..<N + 1])
         \<and> length (map (\<lambda>t. \<lparr>lookup_key = lk @ ''&'' @ str t, boss_key = bk @ ''&'' @ str t,
                              collection_name = cn, experiment_name = Some en,
                              channel_layer_name = Some chn\<rparr>) [0..<N + 1]) = N + 1
         \<and> distinct (map (\<lambda>t. \<lparr>lookup_key = lk @ ''&'' @ str t, boss_key = bk @ ''&'' @ str t,
                              collection_name = cn, experiment_name = Some en,
                              channel_layer_name = Some chn\<rparr>) [0..<N + 1])"
proof -
  let ?d = "\<lparr>lookup_key = lk, boss_key = bk, collection_name = cn,
             experiment_name = Some en, channel_layer_name = Some chn\<rparr>"
  let ?row = "\<lambda>t. \<lparr>lookup_key = lk @ ''&'' @ str t, boss_key = bk @ ''&'' @ str t,
                   collection_name = cn, experiment_name = Some en,
                   channel_layer_name = Some chn\<rparr>"
  have row: "time_row ?d lk bk = ?row"
    by (rule ext) (simp add: time_row_def)
  from fresh have all: "\<forall>t \<in> set [0..<N + 1]. is_valid db (?row t)"
    by (simp only: list_all_iff)
  have "\<forall>t \<in> set [0..<N + 1]. is_valid (db @ [?d]) (time_row ?d lk bk t)"
  proof
    fix t assume "t \<in> set [0..<N + 1]"
    with all have "is_valid db (?row t)" by blast
    then show "is_valid (db @ [?d]) (time_row ?d lk bk t)"
      by (simp add: is_valid_append row)
  qed
  then have loop: "add_time_lookups (db @ [?d]) ?d lk bk [0..<N + 1]
      = (db @ [?d]) @ map (time_row ?d lk bk) [0..<N + 1]"
    by (intro add_time_lookups_fresh) simp_all
  have n: "nat (int N + 1) = N + 1" by simp
  from names N have guard: "truthy_str cn \<and> truthy_opt_str (Some en) \<and> truthy_opt_str (Some chn)
      \<and> truthy_opt_int (Some (int N))"
    by (simp add: truthy_str_def truthy_opt_str_def truthy_opt_int_def)
  have "add_lookup db lk bk cn (Some en) (Some chn) (Some (int N))
      = Inr (add_time_lookups (db @ [?d]) ?d lk bk [0..<N + 1])"
    unfolding add_lookup_def Let_def save_def
    by (simp only: base guard if_True option.case n simp_thms)
  with loop have r: "add_lookup db lk bk cn (Some en) (Some chn) (Some (int N))
      = Inr (db @ ?d # map ?row [0..<N + 1])"
    by (simp add: row)
  have "distinct (map (time_row ?d lk bk) [0..<N + 1])"
    by (rule distinct_time_rows) simp
  then have d: "distinct (map ?row [0..<N + 1])" by (simp only: row)
  have l: "length (map ?row [0..<N + 1]) = N + 1" by simp
  from r l d show ?thesis by (intro conjI)
qed


theorem add_lookup_time_rows_witness:
  "''col1'' \<noteq> [] \<and> ''exp1'' \<noteq> [] \<and> ''ch1'' \<noteq> [] \<and> (0::nat) < 2
   \<and> is_valid [\<lparr>lookup_key = ''1'', boss_key = ''col1'', collection_name = ''col1'',
                 experiment_name = None, channel_layer_name = None\<rparr>]
        \<lparr>lookup_key = ''1&2&3'', boss_key = ''col1&exp1&ch1'', collection_name = ''col1'',
         experiment_name = Some ''exp1'', channel_layer_name = Some ''ch1''\<rparr>
   \<and> add_lookup [\<lparr>lookup_key = ''1'', boss_key = ''col1'', collection_name = ''col1'',
                   experiment_name = None, channel_layer_name = None\<rparr>]
        ''1&2&3'' ''col1&exp1&ch1'' ''col1'' (Some ''exp1'') (Some ''ch1'') (Some 2)
     = Inr [\<lparr>lookup_key = ''1'', boss_key = ''col1'', collection_name = ''col1'',
             experiment_name = None, channel_layer_name = None\<rparr>,
            \<lparr>lookup_key = ''1&2&3'', boss_key = ''col1&exp1&ch1'', collection_name = ''col1'',
             experiment_name = Some ''exp1'', channel_layer_name = Some ''ch1''\<rparr>,
            \<lparr>lookup_key = ''1&2&3&0'', boss_key = ''col1&exp1&ch1&0'', collection_name = ''col1'',
             experiment_name = Some ''exp1'', channel_layer_name = Some ''ch1''\<rparr>,
            \<lparr>lookup_key = ''1&2&3&1'', boss_key = ''col1&exp1&ch1&1'', collection_name = ''col1'',
             experiment_name = Some ''exp1'', channel_layer_name = Some ''ch1''\<rparr>,
            \<lparr>lookup_key = ''1&2&3&2'', boss_key = ''col1&exp1&ch1&2'', collection_name = ''col1'',
             experiment_name = Some ''exp1'', channel_layer_name = Some ''ch1''\<rparr>]"
proof -
  let ?db = "[\<lparr>lookup_key = ''1'', boss_key = ''col1'', collection_name = ''col1'',
                 experiment_name = None, channel_layer_name = None\<rparr>]"
  have h1: "''col1'' \<noteq> []" "''exp1'' \<noteq> []" "''ch1'' \<noteq> []" "(0::nat) < 2"
    by simp_all
  have h2: "is_valid ?db
        \<lparr>lookup_key = ''1&2&3'', boss_key = ''col1&exp1&ch1'', collection_name = ''col1'',
         experiment_name = Some ''exp1'', channel_layer_name = Some ''ch1''\<rparr>"
    by code_simp
  have h3: "list_all (\<lambda>t. is_valid ?db
                  \<lparr>lookup_key = ''1&2&3'' @ ''&'' @ str t, boss_key = ''col1&exp1&ch1'' @ ''&'' @ str t,
                   collection_name = ''col1'', experiment_name = Some ''exp1'',
                   channel_layer_name = Some ''ch1''\<rparr>) [0..<2 + 1]"
    by code_simp
  have e: "map (\<lambda>t. \<lparr>lookup_key = ''1&2&3'' @ ''&'' @ str t, boss_key = ''col1&exp1&ch1'' @ ''&'' @ str t,
                   collection_name = ''col1'', experiment_name = Some ''exp1'',
                   channel_layer_name = Some ''ch1''\<rparr>) [0..<2 + 1]
     = [\<lparr>lookup_key = ''1&2&3&0'', boss_key = ''col1&exp1&ch1&0'', collection_name = ''col1'',
             experiment_name = Some ''exp1'', channel_layer_name = Some ''ch1''\<rparr>,
            \<lparr>lookup_key = ''1&2&3&1'', boss_key = ''col1&exp1&ch1&1'', collection_name = ''col1'',
             experiment_name = Some ''exp1'', channel_layer_name = Some ''ch1''\<rparr>,
            \<lparr>lookup_key = ''1&2&3&2'', boss_key = ''col1&exp1&ch1&2'', collection_name = ''col1'',
             experiment_name = Some ''exp1'', channel_layer_name = Some ''ch1''\<rparr>]"
    by code_simp
  from add_lookup_time_rows [OF h1 h2 h3, THEN conjunct1, unfolded e]
  have c: "add_lookup ?db ''1&2&3'' ''col1&exp1&ch1'' ''col1'' (Some ''exp1'') (Some ''ch1'') (Some 2)
     = Inr [\<lparr>lookup_key = ''1'', boss_key = ''col1'', collection_name = ''col1'',
             experiment_name = None, channel_layer_name = None\<rparr>,
            \<lparr>lookup_key = ''1&2&3'', boss_key = ''col1&exp1&ch1'', collection_name = ''col1'',
             experiment_name = Some ''exp1'', channel_layer_name = Some ''ch1''\<rparr>,
            \<lparr>lookup_key = ''1&2&3&0'', boss_key = ''col1&exp1&ch1&0'', collection_name = ''col1'',
             experiment_name = Some ''exp1'', channel_layer_name = Some ''ch1''\<rparr>,
            \<lparr>lookup_key = ''1&2&3&1'', boss_key = ''col1&exp1&ch1&1'', collection_name = ''col1'',
             experiment_name = Some ''exp1'', channel_layer_name = Some ''ch1''\<rparr>,
            \<lparr>lookup_key = ''1&2&3&2'', boss_key = ''col1&exp1&ch1&2'', collection_name = ''col1'',
             experiment_name = Some ''exp1'', channel_layer_name = Some ''ch1''\<rparr>]"
    by simp
  from h1 h2 c show ?thesis by (intro conjI)
qed

text \<open>
  Two calls with all names present that do not write \<open>N + 1\<close> time-indexed rows: with
  a maximal time sample of 0 on an empty table only the base row is written (the guard
  of the loop takes 0 for false), and a call whose base pair is already in the table
  writes nothing, here with the row for \<open>t = 2\<close> still missing.
\<close>

theorem add_lookup_time_rows_counterexample:
  "add_lookup [] ''1&2&3'' ''col1&exp1&ch1'' ''col1'' (Some ''exp1'') (Some ''ch1'') (Some 0)
     = Inr [\<lparr>lookup_key = ''1&2&3'', boss_key = ''col1&exp1&ch1'', collection_name = ''col1'',
             experiment_name = Some ''exp1'', channel_layer_name = Some ''ch1''\<rparr>]
   \<and> add_lookup [\<lparr>lookup_key = ''1&2&3'', boss_key = ''col1&exp1&ch1'', collection_name = ''col1'',
             experiment_name = Some ''exp1'', channel_layer_name = Some ''ch1''\<rparr>,
            \<lparr>lookup_key = ''1&2&3&0'', boss_key = ''col1&exp1&ch1&0'', collection_name = ''col1'',
             experiment_name = Some ''exp1'', channel_layer_name = Some ''ch1''\<rparr>,
            \<lparr>lookup_key = ''1&2&3&1'', boss_key = ''col1&exp1&ch1&1'', collection_name = ''col1'',
             experiment_name = Some ''exp1'', channel_layer_name = Some ''ch1''\<rparr>]
        ''1&2&3'' ''col1&exp1&ch1'' ''col1'' (Some ''exp1'') (Some ''ch1'') (Some 2)
     = Inr [\<lparr>lookup_key = ''1&2&3'', boss_key = ''col1&exp1&ch1'', collection_name = ''col1'',
             experiment_name = Some ''exp1'', channel_layer_name = Some ''ch1''\<rparr>,
            \<lparr>lookup_key = ''1&2&3&0'', boss_key = ''col1&exp1&ch1&0'', collection_name = ''col1'',
             experiment_name = Some ''exp1'', channel_layer_name = Some ''ch1''\<rparr>,
            \<lparr>lookup_key = ''1&2&3&1'', boss_key = ''col1&exp1&ch1&1'', collection_name = ''col1'',
             experiment_name = Some ''exp1'', channel_layer_name = Some ''ch1''\<rparr>]"
  by code_simp

subsection \<open>Resolving a boss key\<close>

lemma unique_pairs_save:
  "unique_pairs db \<Longrightarrow> is_valid db d \<Longrightarrow> unique_pairs (save db d)"
  by (auto simp: unique_pairs_def is_valid_def save_def list_ex_iff)

lemma unique_pairs_add_time_lookups:
  "unique_pairs db \<Longrightarrow> unique_pairs (add_time_lookups db d lk bk ts)"
proof (induction ts arbitrary: db d)
  case Nil
  then show ?case by simp
next
  case (Cons t ts)
  let ?d = "d\<lparr>lookup_key := lk @ ''&'' @ str t, boss_key := bk @ ''&'' @ str t\<rparr>"
  from Cons.prems have "unique_pairs (if is_valid db ?d then save db ?d else db)"
    by (simp add: unique_pairs_save)
  then have "unique_pairs (add_time_lookups (if is_valid db ?d then save db ?d else db) ?d lk bk ts)"
    by (rule Cons.IH)
  then show ?case by (simp only: add_time_lookups.simps Let_def)
qed

lemma add_lookup_cases:
  obtains
    (rejected) "add_lookup db lk bk cn en chn mts = Inr db"
  | (base) "is_valid db \<lparr>lookup_key = lk, boss_key = bk, collection_name = cn,
             experiment_name = en, channel_layer_name = chn\<rparr>"
      "add_lookup db lk bk cn en chn mts =
         Inr (save db \<lparr>lookup_key = lk, boss_key = bk, collection_name = cn,
             experiment_name = en, channel_layer_name = chn\<rparr>)"
  | (times) ts where "is_valid db \<lparr>lookup_key = lk, boss_key = bk, collection_name = cn,
             experiment_name = en, channel_layer_name = chn\<rparr>"
      "add_lookup db lk bk cn en chn mts =
         Inr (add_time_lookups (save db \<lparr>lookup_key = lk, boss_key = bk, collection_name = cn,
             experiment_name = en, channel_layer_name = chn\<rparr>)
           \<lparr>lookup_key = lk, boss_key = bk, collection_name = cn,
             experiment_name = en, channel_layer_name = chn\<rparr> lk bk ts)"
proof -
  let ?d = "\<lparr>lookup_key = lk, boss_key = bk, collection_name = cn,
             experiment_name = en, channel_layer_name = chn\<rparr>"
  show thesis
  proof (cases "is_valid db ?d")
    case False
    then have "add_lookup db lk bk cn en chn mts = Inr db"
      by (simp add: add_lookup_def)
    then show thesis by (rule rejected)
  next
    case True
    show thesis
    proof (cases "truthy_str cn \<and> truthy_opt_str en \<and> truthy_opt_str chn \<and> truthy_opt_int mts")
      case False
      with True have "add_lookup db lk bk cn en chn mts = Inr (save db ?d)"
        by (auto simp add: add_lookup_def Let_def)
      with True show thesis by (rule base)
    next
      case g: True
      then obtain n where n: "mts = Some n"
        by (cases mts) (simp_all add: truthy_opt_int_def)
      with True g have "add_lookup db lk bk cn en chn mts
          = Inr (add_time_lookups (save db ?d) ?d lk bk [0..<nat (n + 1)])"
        by (simp add: add_lookup_def Let_def)
      with True show thesis by (rule times)
    qed
  qed
qed

lemma unique_pairs_add_lookup:
  assumes u: "unique_pairs db" and a: "add_lookup db lk bk cn en chn mts = Inr db'"
  shows "unique_pairs db'"
proof (cases rule: add_lookup_cases [of db lk bk cn en chn mts])
  case rejected
  with a u show ?thesis by simp
next
  case base
  from a base(2) have "db' = save db \<lparr>lookup_key = lk, boss_key = bk,
      collection_name = cn, experiment_name = en, channel_layer_name = chn\<rparr>"
    by simp
  with unique_pairs_save [OF u base(1)] show ?thesis by simp
next
  case (times ts)
  from u times(1) have "unique_pairs (save db \<lparr>lookup_key = lk, boss_key = bk,
      collection_name = cn, experiment_name = en, channel_layer_name = chn\<rparr>)"
    by (rule unique_pairs_save)
  then have "unique_pairs (add_time_lookups (save db \<lparr>lookup_key = lk, boss_key = bk,
      collection_name = cn, experiment_name = en, channel_layer_name = chn\<rparr>)
      \<lparr>lookup_key = lk, boss_key = bk,
      collection_name = cn, experiment_name = en, channel_layer_name = chn\<rparr> lk bk ts)"
    by (rule unique_pairs_add_time_lookups)
  with a times(2) show ?thesis by simp
qed

lemma filter_same_key:
  "distinct (map f xs) \<Longrightarrow> x \<in> set xs \<Longrightarrow> (\<forall>y \<in> set xs. P y \<longrightarrow> f y = f x) \<Longrightarrow> P x \<Longrightarrow>
     filter P xs = [x]"
proof (induction xs)
  case Nil
  then show ?case by simp
next
  case (Cons a xs)
  from Cons.prems(1) have fa: "f a \<notin> f ` set xs" and d: "distinct (map f xs)"
    by simp_all
  from Cons.prems(3) have rest: "\<forall>y \<in> set xs. P y \<longrightarrow> f y = f x" by simp
  show ?case
  proof (cases "a = x")
    case True
    have "\<forall>y \<in> set xs. \<not> P y"
    proof
      fix y assume y: "y \<in> set xs"
      show "\<not> P y"
      proof
        assume "P y"
        with rest y have "f y = f x" by blast
        with True have "f a = f y" by simp
        moreover from y have "f y \<in> f ` set xs" by (rule imageI)
        ultimately show False using fa by simp
      qed
    qed
    then have "filter P xs = []" by (simp add: filter_empty_conv)
    with True Cons.prems(4) show ?thesis by simp
  next
    case False
    with Cons.prems(2) have x: "x \<in> set xs" by simp
    from d x rest Cons.prems(4) have IH: "filter P xs = [x]" by (rule Cons.IH)
    have "\<not> P a"
    proof
      assume "P a"
      with Cons.prems(3) have "f a = f x" by simp
      moreover from x have "f x \<in> f ` set xs" by (rule imageI)
      ultimately show False using fa by simp
    qed
    with IH show ?thesis by simp
  qed
qed

lemma get_lookup_key_unique:
  assumes u: "unique_pairs db" and r: "r \<in> set db"
    and l: "list_all (\<lambda>r'. boss_key r' \<noteq> boss_key r \<or> lookup_key r' = lookup_key r) db"
  shows "get_lookup_key db (boss_key r) = Inr r"
proof -
  from u have d: "distinct (map (\<lambda>r. (lookup_key r, boss_key r)) db)"
    by (simp add: unique_pairs_def)
  have s: "\<forall>y \<in> set db. boss_key y = boss_key r \<longrightarrow>
      (lookup_key y, boss_key y) = (lookup_key r, boss_key r)"
  proof (intro ballI impI)
    fix y assume "y \<in> set db" "boss_key y = boss_key r"
    with l show "(lookup_key y, boss_key y) = (lookup_key r, boss_key r)"
      unfolding list_all_iff by blast
  qed
  have "filter (\<lambda>y. boss_key y = boss_key r) db = [r]"
    using filter_same_key [where f = "\<lambda>r. (lookup_key r, boss_key r)"
        and P = "\<lambda>y. boss_key y = boss_key r" and x = r, OF d r s]
    by simp
  then show ?thesis by (simp add: get_lookup_key_def)
qed

lemma get_lookup_key_Inr:
  assumes g: "get_lookup_key db k = Inr r"
  shows "r \<in> set db \<and> boss_key r = k"
proof -
  have "filter (\<lambda>y. boss_key y = k) db = [r]"
  proof (cases "filter (\<lambda>y. boss_key y = k) db")
    case Nil
    with g show ?thesis by (simp add: get_lookup_key_def)
  next
    case (Cons a as)
    with g show ?thesis by (cases as) (simp_all add: get_lookup_key_def)
  qed
  then have "r \<in> set (filter (\<lambda>y. boss_key y = k) db)" by simp
  then show ?thesis by simp
qed

lemma get_lookup_key_DoesNotExist:
  "(get_lookup_key db k = Inl DoesNotExist) = list_all (\<lambda>r. boss_key r \<noteq> k) db"
proof (cases "filter (\<lambda>y. boss_key y = k) db")
  case Nil
  then have "get_lookup_key db k = Inl DoesNotExist" by (simp add: get_lookup_key_def)
  moreover from Nil have "list_all (\<lambda>r. boss_key r \<noteq> k) db"
    by (simp add: filter_empty_conv list_all_iff)
  ultimately show ?thesis by simp
next
  case (Cons a as)
  then have "get_lookup_key db k \<noteq> Inl DoesNotExist"
    by (cases as) (simp_all add: get_lookup_key_def)
  moreover have "\<not> list_all (\<lambda>r. boss_key r \<noteq> k) db"
  proof
    assume "list_all (\<lambda>r. boss_key r \<noteq> k) db"
    then have "filter (\<lambda>y. boss_key y = k) db = []"
      by (simp add: filter_empty_conv list_all_iff)
    with Cons show False by simp
  qed
  ultimately show ?thesis by simp
qed

lemma get_lookup_key_Multiple:
  assumes r1: "r1 \<in> set db" and r2: "r2 \<in> set db"
    and k1: "boss_key r1 = k" and k2: "boss_key r2 = k"
    and ne: "lookup_key r1 \<noteq> lookup_key r2"
  shows "get_lookup_key db k = Inl MultipleObjectsReturned"
proof -
  let ?m = "filter (\<lambda>y. boss_key y = k) db"
  from r1 k1 have m1: "r1 \<in> set ?m" by simp
  from r2 k2 have m2: "r2 \<in> set ?m" by simp
  from ne have d: "r1 \<noteq> r2" by blast
  show ?thesis
  proof (cases ?m)
    case Nil
    with m1 show ?thesis by simp
  next
    case (Cons a as)
    show ?thesis
    proof (cases as)
      case Nil
      with Cons m1 m2 have "r1 = a" "r2 = a" by simp_all
      with d show ?thesis by simp
    next
      case (Cons b bs)
      with \<open>?m = a # as\<close> show ?thesis by (simp add: get_lookup_key_def)
    qed
  qed
qed

text \<open>
  Claim C5, as the code has it. In a table without repeated pairs (every table built by
  \<open>add_lookup\<close> from the empty one): after \<open>add_lookup\<close> for a pair of keys,
  \<open>get_lookup_key\<close> on the boss key returns a row with exactly that lookup key,
  provided no row of the table carries the same boss key with another lookup key; and in
  general a row of the table is returned for its boss key under the same proviso. The
  match is on the whole boss key: a returned row is a row of the table whose boss key
  equals the key asked for, and the lookup fails with \<open>DoesNotExist\<close> exactly when no
  row of the table has that boss key. When two rows of the table carry the boss key
  asked for with different lookup keys, the lookup fails with
  \<open>MultipleObjectsReturned\<close>; so it does after \<open>add_lookup\<close> for a pair of keys
  whenever a row of the resulting table carries the boss key of the pair with another
  lookup key.
\<close>

theorem get_lookup_key_after_add_lookup:
  "(unique_pairs db \<and> add_lookup db lk bk cn en chn mts = Inr db'
      \<and> list_all (\<lambda>r'. boss_key r' \<noteq> bk \<or> lookup_key r' = lk) db'
      \<longrightarrow> (\<exists>r. get_lookup_key db' bk = Inr r \<and> lookup_key r = lk \<and> boss_key r = bk))
   \<and> (unique_pairs db \<and> r \<in> set db
      \<and> list_all (\<lambda>r'. boss_key r' \<noteq> boss_key r \<or> lookup_key r' = lookup_key r) db
      \<longrightarrow> get_lookup_key db (boss_key r) = Inr r)
   \<and> (get_lookup_key db k = Inr r' \<longrightarrow> r' \<in> set db \<and> boss_key r' = k)
   \<and> (get_lookup_key db k = Inl DoesNotExist) = list_all (\<lambda>r. boss_key r \<noteq> k) db
   \<and> (ra \<in> set db \<and> rb \<in> set db \<and> boss_key ra = k \<and> boss_key rb = k
        \<and> lookup_key ra \<noteq> lookup_key rb
      \<longrightarrow> get_lookup_key db k = Inl MultipleObjectsReturned)
   \<and> (add_lookup db lk bk cn en chn mts = Inr db'
        \<and> list_ex (\<lambda>r'. boss_key r' = bk \<and> lookup_key r' \<noteq> lk) db'
      \<longrightarrow> get_lookup_key db' bk = Inl MultipleObjectsReturned)"
proof -
  have p0: "unique_pairs db \<and> add_lookup db lk bk cn en chn mts = Inr db'
      \<and> list_all (\<lambda>r'. boss_key r' \<noteq> bk \<or> lookup_key r' = lk) db'
      \<longrightarrow> (\<exists>r. get_lookup_key db' bk = Inr r \<and> lookup_key r = lk \<and> boss_key r = bk)"
  proof
    assume a: "unique_pairs db \<and> add_lookup db lk bk cn en chn mts = Inr db'
      \<and> list_all (\<lambda>r'. boss_key r' \<noteq> bk \<or> lookup_key r' = lk) db'"
    then have u: "unique_pairs db'" by (blast intro: unique_pairs_add_lookup)
    from a have "list_ex (\<lambda>r. lookup_key r = lk \<and> boss_key r = bk) db'"
      by (blast intro: add_lookup_base_written)
    then obtain r where r: "r \<in> set db'" "lookup_key r = lk" "boss_key r = bk"
      unfolding list_ex_iff by blast
    with a have "list_all (\<lambda>r'. boss_key r' \<noteq> boss_key r \<or> lookup_key r' = lookup_key r) db'"
      by simp
    with u r(1) have "get_lookup_key db' (boss_key r) = Inr r"
      by (rule get_lookup_key_unique)
    with r show "\<exists>r. get_lookup_key db' bk = Inr r \<and> lookup_key r = lk \<and> boss_key r = bk"
      by auto
  qed
  have p1: "unique_pairs db \<and> r \<in> set db
      \<and> list_all (\<lambda>r'. boss_key r' \<noteq> boss_key r \<or> lookup_key r' = lookup_key r) db
      \<longrightarrow> get_lookup_key db (boss_key r) = Inr r"
    by (blast intro: get_lookup_key_unique)
  have p2: "get_lookup_key db k = Inr r' \<longrightarrow> r' \<in> set db \<and> boss_key r' = k"
    by (blast dest: get_lookup_key_Inr)
  note p3 = get_lookup_key_DoesNotExist [of db k]
  have p4: "ra \<in> set db \<and> rb \<in> set db \<and> boss_key ra = k \<and> boss_key rb = k
        \<and> lookup_key ra \<noteq> lookup_key rb
      \<longrightarrow> get_lookup_key db k = Inl MultipleObjectsReturned"
    by (blast intro: get_lookup_key_Multiple)
  have p5: "add_lookup db lk bk cn en chn mts = Inr db'
        \<and> list_ex (\<lambda>r'. boss_key r' = bk \<and> lookup_key r' \<noteq> lk) db'
      \<longrightarrow> get_lookup_key db' bk = Inl MultipleObjectsReturned"
  proof
    assume a: "add_lookup db lk bk cn en chn mts = Inr db'
        \<and> list_ex (\<lambda>r'. boss_key r' = bk \<and> lookup_key r' \<noteq> lk) db'"
    then have "list_ex (\<lambda>r. lookup_key r = lk \<and> boss_key r = bk) db'"
      by (blast intro: add_lookup_base_written)
    then obtain w where w: "w \<in> set db'" "lookup_key w = lk" "boss_key w = bk"
      unfolding list_ex_iff by blast
    from a obtain o' where o': "o' \<in> set db'" "boss_key o' = bk" "lookup_key o' \<noteq> lk"
      unfolding list_ex_iff by blast
    from w(2) o'(3) have "lookup_key w \<noteq> lookup_key o'" by simp
    with w(1) o'(1) w(3) o'(2) show "get_lookup_key db' bk = Inl MultipleObjectsReturned"
      by (rule get_lookup_key_Multiple)
  qed
  from p0 p1 p2 p3 p4 p5 show ?thesis by (intro conjI)
qed

theorem get_lookup_key_after_add_lookup_witness:
  "unique_pairs [\<lparr>lookup_key = ''1'', boss_key = ''col1'', collection_name = ''col1'',
                   experiment_name = None, channel_layer_name = None\<rparr>]
   \<and> add_lookup [\<lparr>lookup_key = ''1'', boss_key = ''col1'', collection_name = ''col1'',
                   experiment_name = None, channel_layer_name = None\<rparr>]
        ''2'' ''col1-22'' ''col1-22'' None None None
      = Inr [\<lparr>lookup_key = ''1'', boss_key = ''col1'', collection_name = ''col1'',
              experiment_name = None, channel_layer_name = None\<rparr>,
             \<lparr>lookup_key = ''2'', boss_key = ''col1-22'', collection_name = ''col1-22'',
              experiment_name = None, channel_layer_name = None\<rparr>]
   \<and> (\<exists>r. get_lookup_key [\<lparr>lookup_key = ''1'', boss_key = ''col1'', collection_name = ''col1'',
              experiment_name = None, channel_layer_name = None\<rparr>,
             \<lparr>lookup_key = ''2'', boss_key = ''col1-22'', collection_name = ''col1-22'',
              experiment_name = None, channel_layer_name = None\<rparr>] ''col1-22'' = Inr r
          \<and> lookup_key r = ''2'' \<and> boss_key r = ''col1-22'')
   \<and> get_lookup_key [\<lparr>lookup_key = ''1'', boss_key = ''col1'', collection_name = ''col1'',
              experiment_name = None, channel_layer_name = None\<rparr>,
             \<lparr>lookup_key = ''2'', boss_key = ''col1-22'', collection_name = ''col1-22'',
              experiment_name = None, channel_layer_name = None\<rparr>] ''col1''
      = Inr \<lparr>lookup_key = ''1'', boss_key = ''col1'', collection_name = ''col1'',
              experiment_name = None, channel_layer_name = None\<rparr>
   \<and> get_lookup_key [\<lparr>lookup_key = ''2'', boss_key = ''col1-22'', collection_name = ''col1-22'',
              experiment_name = None, channel_layer_name = None\<rparr>] ''col1''
      = Inl DoesNotExist
   \<and> get_lookup_key [\<lparr>lookup_key = ''1'', boss_key = ''col1'', collection_name = ''col1'',
              experiment_name = None, channel_layer_name = None\<rparr>,
             \<lparr>lookup_key = ''7'', boss_key = ''col1'', collection_name = ''col1'',
              experiment_name = None, channel_layer_name = None\<rparr>] ''col1''
      = Inl MultipleObjectsReturned
   \<and> add_lookup [\<lparr>lookup_key = ''1'', boss_key = ''col1'', collection_name = ''col1'',
                   experiment_name = None, channel_layer_name = None\<rparr>]
        ''7'' ''col1'' ''col1'' None None None
      = Inr [\<lparr>lookup_key = ''1'', boss_key = ''col1'', collection_name = ''col1'',
              experiment_name = None, channel_layer_name = None\<rparr>,
             \<lparr>lookup_key = ''7'', boss_key = ''col1'', collection_name = ''col1'',
              experiment_name = None, channel_layer_name = None\<rparr>]
   \<and> list_ex (\<lambda>r'. boss_key r' = ''col1'' \<and> lookup_key r' \<noteq> ''7'')
        [\<lparr>lookup_key = ''1'', boss_key = ''col1'', collection_name = ''col1'',
              experiment_name = None, channel_layer_name = None\<rparr>,
         \<lparr>lookup_key = ''7'', boss_key = ''col1'', collection_name = ''col1'',
              experiment_name = None, channel_layer_name = None\<rparr>]"
proof -
  let ?r1 = "\<lparr>lookup_key = ''1'', boss_key = ''col1'', collection_name = ''col1'',
              experiment_name = None, channel_layer_name = None\<rparr>"
  let ?r2 = "\<lparr>lookup_key = ''2'', boss_key = ''col1-22'', collection_name = ''col1-22'',
              experiment_name = None, channel_layer_name = None\<rparr>"
  have h1: "unique_pairs [?r1]" by code_simp
  have h2: "add_lookup [?r1] ''2'' ''col1-22'' ''col1-22'' None None None = Inr [?r1, ?r2]"
    by code_simp
  have h3: "list_all (\<lambda>r'. boss_key r' \<noteq> ''col1-22'' \<or> lookup_key r' = ''2'') [?r1, ?r2]"
    by code_simp
  have h4: "unique_pairs [?r1, ?r2]" by code_simp
  have h5: "?r1 \<in> set [?r1, ?r2]" by simp
  have h6: "list_all (\<lambda>r'. boss_key r' \<noteq> boss_key ?r1 \<or> lookup_key r' = lookup_key ?r1) [?r1, ?r2]"
    by code_simp
  have h7: "list_all (\<lambda>r. boss_key r \<noteq> ''col1'') [?r2]" by code_simp
  from get_lookup_key_after_add_lookup
    [of "[?r1]" "''2''" "''col1-22''" "''col1-22''" None None None "[?r1, ?r2]"] h1 h2 h3
  have c1: "\<exists>r. get_lookup_key [?r1, ?r2] ''col1-22'' = Inr r
      \<and> lookup_key r = ''2'' \<and> boss_key r = ''col1-22''"
    by blast
  from get_lookup_key_after_add_lookup [where db = "[?r1, ?r2]" and r = ?r1] h4 h5 h6
  have "get_lookup_key [?r1, ?r2] (boss_key ?r1) = Inr ?r1"
    by blast
  then have c2: "get_lookup_key [?r1, ?r2] ''col1'' = Inr ?r1" by simp
  from get_lookup_key_after_add_lookup [where db = "[?r2]" and k = "''col1''"] h7
  have c3: "get_lookup_key [?r2] ''col1'' = Inl DoesNotExist"
    by blast
  let ?r7 = "\<lparr>lookup_key = ''7'', boss_key = ''col1'', collection_name = ''col1'',
              experiment_name = None, channel_layer_name = None\<rparr>"
  have h8: "?r1 \<in> set [?r1, ?r7] \<and> ?r7 \<in> set [?r1, ?r7]
      \<and> boss_key ?r1 = ''col1'' \<and> boss_key ?r7 = ''col1''
      \<and> lookup_key ?r1 \<noteq> lookup_key ?r7"
    by simp
  from get_lookup_key_after_add_lookup
    [where db = "[?r1, ?r7]" and k = "''col1''" and ra = ?r1 and rb = ?r7] h8
  have c4: "get_lookup_key [?r1, ?r7] ''col1'' = Inl MultipleObjectsReturned"
    by blast
  have h9: "add_lookup [?r1] ''7'' ''col1'' ''col1'' None None None = Inr [?r1, ?r7]"
    by code_simp
  have h10: "list_ex (\<lambda>r'. boss_key r' = ''col1'' \<and> lookup_key r' \<noteq> ''7'') [?r1, ?r7]"
    by code_simp
  from get_lookup_key_after_add_lookup
    [of "[?r1]" "''7''" "''col1''" "''col1''" None None None "[?r1, ?r7]"] h9 h10
  have c5: "get_lookup_key [?r1, ?r7] ''col1'' = Inl MultipleObjectsReturned"
    by blast
  from h1 h2 c1 c2 c3 c4 h9 h10 show ?thesis by (intro conjI)
qed

text \<open>
  The same boss key written with two lookup keys (a collection created again under a
  name used before): both rows are accepted, since the pairs differ, and the lookup
  fails with \<open>MultipleObjectsReturned\<close> instead of returning the lookup key written.
\<close>

theorem get_lookup_key_after_add_lookup_counterexample:
  "add_lookup [] ''1'' ''col1'' ''col1'' None None None
     = Inr [\<lparr>lookup_key = ''1'', boss_key = ''col1'', collection_name = ''col1'',
             experiment_name = None, channel_layer_name = None\<rparr>]
   \<and> add_lookup [\<lparr>lookup_key = ''1'', boss_key = ''col1'', collection_name = ''col1'',
             experiment_name = None, channel_layer_name = None\<rparr>]
        ''7'' ''col1'' ''col1'' None None None
     = Inr [\<lparr>lookup_key = ''1'', boss_key = ''col1'', collection_name = ''col1'',
             experiment_name = None, channel_layer_name = None\<rparr>,
            \<lparr>lookup_key = ''7'', boss_key = ''col1'', collection_name = ''col1'',
             experiment_name = None, channel_layer_name = None\<rparr>]
   \<and> get_lookup_key [\<lparr>lookup_key = ''1'', boss_key = ''col1'', collection_name = ''col1'',
             experiment_name = None, channel_layer_name = None\<rparr>,
            \<lparr>lookup_key = ''7'', boss_key = ''col1'', collection_name = ''col1'',
             experiment_name = None, channel_layer_name = None\<rparr>] ''col1''
     = Inl MultipleObjectsReturned"
  by code_simp

section \<open>Properties of the cutout parsers\<close>

subsection \<open>The size check\<close>

text \<open>The number of binary digits.\<close>

lemma bit_length_upper: "n < 2 ^ bit_length n"
proof (induction n rule: bit_length.induct)
  case (1 n)
  show ?case
  proof (cases "n \<le> 0")
    case True
    then show ?thesis by (simp add: bit_length.simps [of n])
  next
    case False
    with 1 have "n div 2 < 2 ^ bit_length (n div 2)" by simp
    then have "n < 2 * 2 ^ bit_length (n div 2)" by linarith
    with False show ?thesis by (simp add: bit_length.simps [of n])
  qed
qed

lemma bit_length_lower: "0 < n \<Longrightarrow> 2 ^ (bit_length n - 1) \<le> n"
proof (induction n rule: bit_length.induct)
  case (1 n)
  then have n: "\<not> n \<le> 0" by simp
  show ?case
  proof (cases "n div 2 \<le> 0")
    case True
    with n have "bit_length n = 1"
      by (simp add: bit_length.simps [of n] bit_length.simps [of "n div 2"] bit_length.simps [of 0])
    with 1 show ?thesis by simp
  next
    case False
    with 1 n have ih: "2 ^ (bit_length (n div 2) - 1) \<le> n div 2" by simp
    from False have "0 < bit_length (n div 2)"
      by (simp add: bit_length.simps [of "n div 2"])
    then have "(2::int) ^ bit_length (n div 2) = 2 * 2 ^ (bit_length (n div 2) - 1)"
      by (cases "bit_length (n div 2)") simp_all
    with ih have "2 ^ bit_length (n div 2) \<le> n" by linarith
    with n show ?thesis by (simp add: bit_length.simps [of n])
  qed
qed

lemma bit_length_le: "n < 2 ^ k \<Longrightarrow> bit_length n \<le> k"
proof (rule ccontr)
  assume n: "n < 2 ^ k" and "\<not> bit_length n \<le> k"
  then have k: "k \<le> bit_length n - 1" by simp
  from \<open>\<not> bit_length n \<le> k\<close> have "0 < n"
    by (cases "n \<le> 0") (simp_all add: bit_length.simps [of n])
  then have "2 ^ (bit_length n - 1) \<le> n" by (rule bit_length_lower)
  moreover from k have "(2::int) ^ k \<le> 2 ^ (bit_length n - 1)"
    by (rule power_increasing) simp
  ultimately show False using n by linarith
qed

lemma bit_length_gt: "2 ^ k \<le> n \<Longrightarrow> k < bit_length n"
proof (rule ccontr)
  assume n: "2 ^ k \<le> n" and "\<not> k < bit_length n"
  then have "bit_length n \<le> k" by simp
  then have "(2::int) ^ bit_length n \<le> 2 ^ k" by (rule power_increasing) simp
  with bit_length_upper [of n] n show False by linarith
qed

lemma round_bits_exact: "m < 2 ^ k \<Longrightarrow> round_bits k m = m"
proof -
  assume "m < 2 ^ k"
  then have "bit_length m \<le> k" by (rule bit_length_le)
  then show ?thesis by (simp only: round_bits_def Let_def if_True)
qed

text \<open>The quotient kept by the rounding has its top bit set.\<close>

lemma round_bits_quotient:
  assumes k: "0 < k" and m: "2 ^ k \<le> m"
  shows "2 ^ (k - 1) \<le> m div 2 ^ (bit_length m - k)"
proof -
  let ?n = "bit_length m"
  from m have kn: "k < ?n" by (rule bit_length_gt)
  have "(0::int) < 2 ^ k" by simp
  then have "0 < m" using m by (rule less_le_trans)
  then have lo: "2 ^ (?n - 1) \<le> m" by (rule bit_length_lower)
  from k kn have e: "?n - 1 = (k - 1) + (?n - k)" by simp
  have "(2::int) ^ (k - 1) = 2 ^ (?n - 1) div 2 ^ (?n - k)"
    by (simp only: e power_add) simp
  also from lo have "\<dots> \<le> m div 2 ^ (?n - k)" by (rule zdiv_mono1) simp
  finally show ?thesis .
qed

lemma round_bits_ge:
  assumes k: "0 < k" and kj: "k \<le> j" and m: "2 ^ j \<le> m"
  shows "2 ^ j \<le> round_bits k m"
proof -
  let ?n = "bit_length m"
  let ?sh = "?n - k"
  let ?q = "m div 2 ^ ?sh"
  let ?q' = "if 2 ^ (?sh - 1) < m mod 2 ^ ?sh \<or> (m mod 2 ^ ?sh = 2 ^ (?sh - 1) \<and> odd ?q)
             then ?q + 1 else ?q"
  from m have jn: "j < ?n" by (rule bit_length_gt)
  with kj have kn: "k < ?n" by simp
  then have r: "round_bits k m = ?q' * 2 ^ ?sh"
    by (simp add: round_bits_def Let_def)
  from kj have "(2::int) ^ k \<le> 2 ^ j" by (rule power_increasing) simp
  then have mk: "2 ^ k \<le> m" using m by (rule order_trans)
  from k mk have q: "2 ^ (k - 1) \<le> ?q" by (rule round_bits_quotient)
  have "?q \<le> ?q'" by simp
  with q have "2 ^ (k - 1) \<le> ?q'" by (rule order_trans)
  then have "2 ^ (k - 1) * 2 ^ ?sh \<le> ?q' * 2 ^ ?sh" by (rule mult_right_mono) simp
  moreover from k kn have "(2::int) ^ (k - 1) * 2 ^ ?sh = 2 ^ (?n - 1)"
    by (simp add: power_add [symmetric])
  moreover from jn have "(2::int) ^ j \<le> 2 ^ (?n - 1)" by (intro power_increasing) simp_all
  ultimately show ?thesis by (simp only: r)
qed

lemma round_bits_nonneg:
  assumes m: "0 \<le> m"
  shows "0 \<le> round_bits k m"
proof (cases "bit_length m \<le> k")
  case True
  with m show ?thesis by (simp add: round_bits_def)
next
  case False
  let ?sh = "bit_length m - k"
  let ?q = "m div 2 ^ ?sh"
  let ?q' = "if 2 ^ (?sh - 1) < m mod 2 ^ ?sh \<or> (m mod 2 ^ ?sh = 2 ^ (?sh - 1) \<and> odd ?q)
             then ?q + 1 else ?q"
  from False have r: "round_bits k m = ?q' * 2 ^ ?sh"
    by (simp add: round_bits_def Let_def)
  from m have "0 \<le> ?q" by (simp add: pos_imp_zdiv_nonneg_iff)
  then have "0 \<le> ?q'" by simp
  then have "0 \<le> ?q' * 2 ^ ?sh" by (rule mult_nonneg_nonneg) simp
  then show ?thesis by (simp only: r)
qed

lemma round_bits_le:
  assumes k: "0 < k" and m: "0 \<le> m"
  shows "round_bits k m \<le> 2 * m"
proof (cases "m < 2 ^ k")
  case True
  then have "round_bits k m = m" by (rule round_bits_exact)
  with m show ?thesis by simp
next
  case False
  then have mk: "2 ^ k \<le> m" by simp
  let ?n = "bit_length m"
  let ?sh = "?n - k"
  let ?q = "m div 2 ^ ?sh"
  let ?q' = "if 2 ^ (?sh - 1) < m mod 2 ^ ?sh \<or> (m mod 2 ^ ?sh = 2 ^ (?sh - 1) \<and> odd ?q)
             then ?q + 1 else ?q"
  from mk have kn: "k < ?n" by (rule bit_length_gt)
  then have r: "round_bits k m = ?q' * 2 ^ ?sh"
    by (simp add: round_bits_def Let_def)
  from k mk have "2 ^ (k - 1) \<le> ?q" by (rule round_bits_quotient)
  moreover have "(1::int) \<le> 2 ^ (k - 1)" by simp
  ultimately have "1 \<le> ?q" by (rule order_trans [rotated])
  then have "?q' \<le> 2 * ?q" by simp
  then have "?q' * 2 ^ ?sh \<le> (2 * ?q) * 2 ^ ?sh" by (rule mult_right_mono) simp
  moreover have "?q * 2 ^ ?sh \<le> m"
  proof -
    have "?q * 2 ^ ?sh + m mod 2 ^ ?sh = m" by (rule div_mult_mod_eq)
    moreover have "0 \<le> m mod 2 ^ ?sh" by (rule pos_mod_sign) simp
    ultimately show ?thesis by linarith
  qed
  ultimately show ?thesis by (simp only: r)
qed

text \<open>Rounding to a double.\<close>

lemma round_to_double_exact: "\<bar>p\<bar> < 2 ^ 53 \<Longrightarrow> round_to_double p = p"
proof -
  assume "\<bar>p\<bar> < 2 ^ 53"
  then have "round_bits 53 \<bar>p\<bar> = \<bar>p\<bar>" by (rule round_bits_exact)
  then show ?thesis by (simp only: round_to_double_def mult_sgn_abs)
qed

lemma round_to_double_minus: "round_to_double (- p) = - round_to_double p"
  by (simp add: round_to_double_def sgn_minus)

lemma round_to_double_ge:
  assumes j: "53 \<le> j" and p: "2 ^ j \<le> p"
  shows "2 ^ j \<le> round_to_double p"
proof -
  have "(0::int) < 2 ^ j" by simp
  then have pos: "0 < p" using p by (rule less_le_trans)
  then have a: "\<bar>p\<bar> = p" by simp
  have "2 ^ j \<le> round_bits 53 p" using _ j p by (rule round_bits_ge) simp
  moreover from pos have "round_to_double p = round_bits 53 p"
    by (simp add: round_to_double_def)
  ultimately show ?thesis by simp
qed

lemma round_to_double_le:
  assumes j: "53 \<le> j" and p: "p \<le> - (2 ^ j)"
  shows "round_to_double p \<le> - (2 ^ j)"
proof -
  from p have "2 ^ j \<le> - p" by simp
  with j have "2 ^ j \<le> round_to_double (- p)" by (rule round_to_double_ge)
  then show ?thesis by (simp only: round_to_double_minus)
qed

lemma round_to_double_abs_ge:
  assumes j: "53 \<le> j" and p: "2 ^ j \<le> \<bar>p\<bar>"
  shows "2 ^ j \<le> \<bar>round_to_double p\<bar>"
proof -
  from p consider "2 ^ j \<le> p" | "p \<le> - (2 ^ j)" by linarith
  then show ?thesis
  proof cases
    case 1
    with j have "2 ^ j \<le> round_to_double p" by (rule round_to_double_ge)
    then show ?thesis by linarith
  next
    case 2
    with j have "round_to_double p \<le> - (2 ^ j)" by (rule round_to_double_le)
    then show ?thesis by linarith
  qed
qed

lemma round_to_double_abs: "\<bar>round_to_double p\<bar> \<le> 2 * \<bar>p\<bar>"
proof -
  have a: "round_bits 53 \<bar>p\<bar> \<le> 2 * \<bar>p\<bar>" by (rule round_bits_le) simp_all
  have "\<bar>round_to_double p\<bar> = \<bar>sgn p\<bar> * \<bar>round_bits 53 \<bar>p\<bar>\<bar>"
    by (simp only: round_to_double_def abs_mult)
  also have "\<dots> \<le> 1 * \<bar>round_bits 53 \<bar>p\<bar>\<bar>"
    by (rule mult_right_mono) (simp_all add: abs_sgn_eq)
  also have "\<dots> = \<bar>round_bits 53 \<bar>p\<bar>\<bar>" by simp
  also have "\<dots> = round_bits 53 \<bar>p\<bar>" by (rule abs_of_nonneg) (rule round_bits_nonneg, simp)
  also note a
  finally show ?thesis .
qed

text \<open>Rounding does not change the comparison with a number that is itself a double.\<close>

lemma round_to_double_compare:
  assumes c: "\<bar>c\<bar> < 2 ^ 53"
  shows "(c < round_to_double p) = (c < p)"
proof -
  consider "\<bar>p\<bar> < 2 ^ 53" | "2 ^ 53 \<le> p" | "p \<le> - (2 ^ 53)" by linarith
  then show ?thesis
  proof cases
    case 1
    then show ?thesis by (simp only: round_to_double_exact)
  next
    case 2
    then have "2 ^ 53 \<le> round_to_double p" by (rule round_to_double_ge [rotated]) simp
    with 2 c show ?thesis by linarith
  next
    case 3
    then have "round_to_double p \<le> - (2 ^ 53)" by (rule round_to_double_le [rotated]) simp
    with 3 c show ?thesis by linarith
  qed
qed

lemma round_to_double_in_range:
  assumes "\<bar>p\<bar> < 2 ^ 1024"
  shows "\<not> 1027 < bit_length \<bar>round_to_double p\<bar>"
proof -
  have "\<bar>round_to_double p\<bar> \<le> 2 * \<bar>p\<bar>" by (rule round_to_double_abs)
  also from assms have "\<dots> < 2 * 2 ^ 1024" by simp
  also have "\<dots> \<le> (2::int) ^ 1027"
  proof -
    have "(2::int) ^ Suc 1024 \<le> 2 ^ 1027" by (rule power_increasing) simp_all
    then show ?thesis by (simp only: power_Suc)
  qed
  finally have "bit_length \<bar>round_to_double p\<bar> \<le> 1027" by (rule bit_length_le)
  then show ?thesis by (simp only: not_less)
qed

lemma round_to_double_out_of_range:
  assumes "2 ^ 1027 \<le> \<bar>p\<bar>"
  shows "1027 < bit_length \<bar>round_to_double p\<bar>"
proof -
  from assms have "2 ^ 1027 \<le> \<bar>round_to_double p\<bar>"
    by (rule round_to_double_abs_ge [rotated]) simp
  then show ?thesis by (rule bit_length_gt)
qed

lemma rat_less_div:
  "0 < k \<Longrightarrow> ((of_int m :: rat) < of_int p / of_int k) = (k * m < p)"
proof -
  assume k: "0 < k"
  then have "((of_int m :: rat) < of_int p / of_int k) = ((of_int m :: rat) * of_int k < of_int p)"
    by (simp add: pos_less_divide_eq)
  also have "\<dots> = ((of_int (k * m) :: rat) < of_int p)"
    by (simp add: mult.commute)
  also have "\<dots> = (k * m < p)"
    by (rule of_int_less_iff)
  finally show ?thesis .
qed

lemma rat_less_div8: "((of_int m :: rat) < of_int p / 8) = (8 * m < p)"
  using rat_less_div [of 8 m p] by simp

lemma rat_less_div32: "((of_int m :: rat) < of_int p / 8 / 4) = (32 * m < p)"
proof -
  have "(of_int p :: rat) / 8 / 4 = of_int p / of_int 32" by simp
  then show ?thesis using rat_less_div [of 32 m p] by simp
qed

text \<open>What \<open>is_too_large\<close> computes, in whole numbers.\<close>

lemma is_too_large_rounded:
  "is_too_large max_size r bd =
     (if 1027 < bit_length \<bar>round_to_double (int (x_span r) * int (y_span r) * int (z_span r)
                                              * (time_stop r - time_start r) * bd)\<bar>
      then Inl (OtherException ''OverflowError''
                  ''integer division result too large for a float'')
      else Inr ((if bd = 64 then 32 else 8) * max_size
                  < round_to_double (int (x_span r) * int (y_span r) * int (z_span r)
                                      * (time_stop r - time_start r) * bd)))"
proof (cases "bd = 64")
  case True
  show ?thesis
    by (simp only: is_too_large_def Let_def if_P [OF True] rat_less_div32 if_bool_eq_conj)
       simp
next
  case False
  show ?thesis
    by (simp only: is_too_large_def Let_def if_not_P [OF False] rat_less_div8 if_bool_eq_conj)
       simp
qed

lemma byte_volume_of_int:
  "byte_volume r bd =
     of_int (int (x_span r) * int (y_span r) * int (z_span r)
              * (time_stop r - time_start r) * bd) / 8"
  by (simp add: byte_volume_def)

lemma is_too_large_exact:
  assumes "\<bar>int (x_span r) * int (y_span r) * int (z_span r)
             * (time_stop r - time_start r) * bd\<bar> < 2 ^ 53"
  shows "is_too_large max_size r bd =
           Inr ((if bd = 64 then 32 else 8) * max_size
                  < int (x_span r) * int (y_span r) * int (z_span r)
                      * (time_stop r - time_start r) * bd)"
proof -
  let ?P = "int (x_span r) * int (y_span r) * int (z_span r) * (time_stop r - time_start r) * bd"
  from assms have e: "round_to_double ?P = ?P" by (rule round_to_double_exact)
  from assms have "\<bar>?P\<bar> < 2 ^ 1024"
    by (rule less_le_trans) (rule power_increasing, simp_all)
  then have n: "\<not> 1027 < bit_length \<bar>round_to_double ?P\<bar>" by (rule round_to_double_in_range)
  show ?thesis by (simp only: is_too_large_rounded if_not_P [OF n]) (simp only: e)
qed

lemma is_too_large_int:
  assumes ceiling: "\<bar>max_size\<bar> < 2 ^ 48"
    and range: "\<bar>int (x_span r) * int (y_span r) * int (z_span r)
                  * (time_stop r - time_start r) * bd\<bar> < 2 ^ 1024"
  shows "is_too_large max_size r bd =
           Inr ((if bd = 64 then 32 else 8) * max_size
                  < int (x_span r) * int (y_span r) * int (z_span r)
                      * (time_stop r - time_start r) * bd)"
proof -
  let ?P = "int (x_span r) * int (y_span r) * int (z_span r) * (time_stop r - time_start r) * bd"
  let ?c = "(if bd = 64 then 32 else 8) * max_size"
  from range have n: "\<not> 1027 < bit_length \<bar>round_to_double ?P\<bar>"
    by (rule round_to_double_in_range)
  have "\<bar>?c\<bar> \<le> 32 * \<bar>max_size\<bar>" by (simp add: abs_mult)
  also from ceiling have "\<dots> < 32 * 2 ^ 48" by simp
  also have "\<dots> = (2::int) ^ 53" by simp
  finally have "\<bar>?c\<bar> < 2 ^ 53" .
  then have c: "(?c < round_to_double ?P) = (?c < ?P)" by (rule round_to_double_compare)
  show ?thesis by (simp only: is_too_large_rounded if_not_P [OF n] c)
qed

lemma is_too_large_overflow:
  assumes "2 ^ 1027 \<le> \<bar>int (x_span r) * int (y_span r) * int (z_span r)
                          * (time_stop r - time_start r) * bd\<bar>"
  shows "is_too_large max_size r bd =
           Inl (OtherException ''OverflowError''
                  ''integer division result too large for a float'')"
proof -
  let ?P = "int (x_span r) * int (y_span r) * int (z_span r) * (time_stop r - time_start r) * bd"
  from assms have n: "1027 < bit_length \<bar>round_to_double ?P\<bar>"
    by (rule round_to_double_out_of_range)
  show ?thesis by (simp only: is_too_large_rounded if_P [OF n])
qed

lemma volume_exceeds_int:
  "((if bd = 64 then byte_volume r bd / 4 else byte_volume r bd) > of_int max_size)
   = ((if bd = 64 then 32 else 8) * max_size
        < int (x_span r) * int (y_span r) * int (z_span r) * (time_stop r - time_start r) * bd)"
proof (cases "bd = 64")
  case True
  show ?thesis by (simp only: if_P [OF True] byte_volume_of_int rat_less_div32)
next
  case False
  show ?thesis by (simp only: if_not_P [OF False] byte_volume_of_int rat_less_div8)
qed

lemma is_too_large_volume:
  assumes ceiling: "\<bar>max_size\<bar> < 2 ^ 48"
    and range: "\<bar>int (x_span r) * int (y_span r) * int (z_span r)
                  * (time_stop r - time_start r) * bd\<bar> < 2 ^ 1024"
  shows "is_too_large max_size r bd =
           Inr ((if bd = 64 then byte_volume r bd / 4 else byte_volume r bd) > of_int max_size)"
  by (simp only: is_too_large_int [OF ceiling range] volume_exceeds_int)

text \<open>
  Claim C9, as the code has it. For a ceiling below \<open>2 ^ 48\<close> in absolute value and
  a product of the spans and the bit depth below \<open>2 ^ 1024\<close> in absolute value,
  \<open>is_too_large\<close> returns, and it returns true exactly when the byte volume
  \<^verbatim>\<open>xSpan * ySpan * zSpan * tSpan * bitDepth / 8\<close>, divided by 4 when the bit depth
  is 64 and left as it is for every other bit depth, exceeds the ceiling. In whole
  numbers: exactly when the product of the spans and the bit depth exceeds 32 times
  the ceiling for 64 bits and 8 times the ceiling otherwise.
\<close>

theorem is_too_large_iff:
  assumes ceiling: "\<bar>max_size\<bar> < 2 ^ 48"
    and range: "\<bar>int (x_span r) * int (y_span r) * int (z_span r)
                  * (time_stop r - time_start r) * bd\<bar> < 2 ^ 1024"
  shows "is_too_large max_size r bd =
           Inr ((if bd = 64 then byte_volume r bd / 4 else byte_volume r bd) > of_int max_size)
         \<and> is_too_large max_size r bd =
           Inr ((if bd = 64 then 32 else 8) * max_size
                  < int (x_span r) * int (y_span r) * int (z_span r)
                      * (time_stop r - time_start r) * bd)"
  using is_too_large_volume [OF ceiling range] is_too_large_int [OF ceiling range]
  by (rule conjI)

subsection \<open>The decode path of the raw encoding\<close>

lemma c_offset4: "c_offset [T, Z, Y, X] [t, z, y, x] = ((t * Z + z) * Y + y) * X + x"
  by (simp add: c_offset_def)

lemma c_offset3: "c_offset [Z, Y, X] [z, y, x] = (z * Y + y) * X + x"
  by (simp add: c_offset_def)

text \<open>
  Claim C6. In \<open>BloscParser_parse\<close>, once the request is validated, the size check has
  passed and the payload has been decompressed into the flat buffer \<open>data_mat\<close>: the
  buffer is reshaped to \<open>(tSpan, zSpan, ySpan, xSpan)\<close> when time was requested and to
  \<open>(zSpan, ySpan, xSpan)\<close> otherwise, in row-major order (the element at an index is the
  element of the flat buffer at the row-major offset of the index); and when the number
  of elements of the buffer is not the product of these dimensions, the parser returns
  the \<open>DATA_DIMENSION_MISMATCH\<close> error and no array.
\<close>

theorem BloscParser_reshape:
  assumes rq: "make_request ext ctx = Inr req"
    and rs: "BossResourceDjango ext req = Inr res"
    and bd: "bit_depth res = Some bd"
    and sz: "is_too_large (CUTOUT_MAX_SIZE ext) req bd = Inr False"
    and dc: "blosc_decode ext res s = (Inr data_mat, s')"
  shows "BloscParser_parse ext s ctx =
           (if length (elems data_mat) = prod_list (target_shape req)
            then (Parsed req res (data_mat\<lparr>shape := target_shape req\<rparr>), s')
            else (BossParserError msg_unpack DATA_DIMENSION_MISMATCH, s'))
         \<and> target_shape req =
           (if time_request req
            then [nat (time_stop req - time_start req), z_span req, y_span req, x_span req]
            else [z_span req, y_span req, x_span req])
         \<and> (if time_request req
            then \<forall>t z y x. nd_item (data_mat\<lparr>shape := target_shape req\<rparr>) [t, z, y, x] =
                   elems data_mat ! (((t * z_span req + z) * y_span req + y) * x_span req + x)
            else \<forall>z y x. nd_item (data_mat\<lparr>shape := target_shape req\<rparr>) [z, y, x] =
                   elems data_mat ! ((z * y_span req + y) * x_span req + x))"
proof -
  have a: "BloscParser_parse ext s ctx =
           (if length (elems data_mat) = prod_list (target_shape req)
            then (Parsed req res (data_mat\<lparr>shape := target_shape req\<rparr>), s')
            else (BossParserError msg_unpack DATA_DIMENSION_MISMATCH, s'))"
    using rq rs bd sz dc by (simp add: BloscParser_parse_def np_reshape_def)
  have b: "target_shape req =
           (if time_request req
            then [nat (time_stop req - time_start req), z_span req, y_span req, x_span req]
            else [z_span req, y_span req, x_span req])"
    by (rule target_shape_def)
  have c: "(if time_request req
            then \<forall>t z y x. nd_item (data_mat\<lparr>shape := target_shape req\<rparr>) [t, z, y, x] =
                   elems data_mat ! (((t * z_span req + z) * y_span req + y) * x_span req + x)
            else \<forall>z y x. nd_item (data_mat\<lparr>shape := target_shape req\<rparr>) [z, y, x] =
                   elems data_mat ! ((z * y_span req + y) * x_span req + x))"
    by (simp add: nd_item_def target_shape_def c_offset4 c_offset3)
  from a b c show ?thesis by (intro conjI)
qed

subsection \<open>The self-describing encodings\<close>

text \<open>
  Claim C8, as the code has it. On every successful decode through
  \<open>BloscPythonParser_parse\<close> or \<open>NpygzParser_parse\<close> the array parsed from the payload
  is returned as it was parsed, whatever its shape and element size: the parser makes
  no comparison with the spans of the request or the data type of the resource.
\<close>

theorem self_describing_array_returned_unchecked:
  assumes rq: "make_request ext ctx = Inr req"
    and rs: "BossResourceDjango ext req = Inr res"
    and bd: "bit_depth res = Some bd"
    and sz: "is_too_large (CUTOUT_MAX_SIZE ext) req bd = Inr False"
  shows "(blosc_python_decode ext s = (Inr a, s') \<longrightarrow>
            BloscPythonParser_parse ext s ctx = (Parsed req res a, s'))
         \<and> (npygz_decode ext s = (Inr a, s') \<longrightarrow>
            NpygzParser_parse ext s ctx = (Parsed req res a, s'))"
  using rq rs bd sz
  by (simp add: BloscPythonParser_parse_def NpygzParser_parse_def)

subsection \<open>The size check comes before decompression\<close>

lemma make_request_codecs:
  "make_request (ext\<lparr>blosc_decompress := f, blosc_unpack_array := g,
                    zlib_decompress := h, np_load := k\<rparr>) ctx = make_request ext ctx"
  by (simp add: make_request_def split: sum.split)

text \<open>
  Claim C2, as the code has it. For a ceiling below \<open>2 ^ 48\<close> in absolute value and a
  product of the spans and the bit depth below \<open>2 ^ 1024\<close> in absolute value: when the
  byte volume, divided by 4 for a bit depth of 64, exceeds the ceiling, each of the
  three parsers returns the \<open>REQUEST_TOO_LARGE\<close> error whatever the body holds and
  whatever the codecs would do with it: \<open>BloscParser_parse\<close> leaves the stream as it
  was, the other two only drain it, and replacing the four library calls by any others
  does not change the result.
\<close>

theorem too_large_before_decompression:
  assumes rq: "make_request ext ctx = Inr req"
    and rs: "BossResourceDjango ext req = Inr res"
    and bd: "bit_depth res = Some bd"
    and ceiling: "\<bar>CUTOUT_MAX_SIZE ext\<bar> < 2 ^ 48"
    and range: "\<bar>int (x_span req) * int (y_span req) * int (z_span req)
                  * (time_stop req - time_start req) * bd\<bar> < 2 ^ 1024"
    and sz: "(if bd = 64 then byte_volume req bd / 4 else byte_volume req bd)
               > of_int (CUTOUT_MAX_SIZE ext)"
  shows "BloscParser_parse ext s ctx = (BossParserError msg_too_large REQUEST_TOO_LARGE, s)
         \<and> BloscPythonParser_parse ext s ctx
             = (BossParserError msg_too_large REQUEST_TOO_LARGE, consume_request s)
         \<and> NpygzParser_parse ext s ctx
             = (BossParserError msg_too_large REQUEST_TOO_LARGE, consume_request s)
         \<and> BloscParser_parse
               (ext\<lparr>blosc_decompress := f, blosc_unpack_array := g,
                    zlib_decompress := h, np_load := k\<rparr>) s ctx
             = BloscParser_parse ext s ctx"
proof -
  from sz have big: "is_too_large (CUTOUT_MAX_SIZE ext) req bd = Inr True"
    by (simp only: is_too_large_volume [OF ceiling range])
  have r1: "BloscParser_parse ext s ctx = (BossParserError msg_too_large REQUEST_TOO_LARGE, s)"
    using rq rs bd big by (simp add: BloscParser_parse_def)
  have r2: "BloscPythonParser_parse ext s ctx
             = (BossParserError msg_too_large REQUEST_TOO_LARGE, consume_request s)"
    using rq rs bd big by (simp add: BloscPythonParser_parse_def)
  have r3: "NpygzParser_parse ext s ctx
             = (BossParserError msg_too_large REQUEST_TOO_LARGE, consume_request s)"
    using rq rs bd big by (simp add: NpygzParser_parse_def)
  have r4: "BloscParser_parse
               (ext\<lparr>blosc_decompress := f, blosc_unpack_array := g,
                    zlib_decompress := h, np_load := k\<rparr>) s ctx
             = BloscParser_parse ext s ctx"
    using rq rs bd big by (simp add: BloscParser_parse_def make_request_codecs)
  from r1 r2 r3 r4 show ?thesis by (intro conjI)
qed


subsection \<open>Error returns and the request stream\<close>

lemma blosc_python_decode_snd: "snd (blosc_python_decode ext s) = consume_request s"
  by (simp add: blosc_python_decode_def consume_request_def split: prod.split sum.split)

lemma npygz_decode_snd: "snd (npygz_decode ext s) = consume_request s"
  by (simp add: npygz_decode_def consume_request_def split: prod.split sum.split)

lemma blosc_decode_snd: "snd (blosc_decode ext res s) = consume_request s"
  by (simp add: blosc_decode_def consume_request_def split: prod.split sum.split option.split)

lemma reads_consume_request: "reads (consume_request s) = Suc (reads s)"
  by (simp add: consume_request_def stream_read_def split: option.split)

lemma BloscPythonParser_error_drained:
  assumes "fst (BloscPythonParser_parse ext s ctx) = BossParserError m c"
  shows "snd (BloscPythonParser_parse ext s ctx) = consume_request s"
proof (cases "make_request ext ctx")
  case (Inl e)
  then show ?thesis by (simp add: BloscPythonParser_parse_def)
next
  case (Inr req)
  note rq = this
  show ?thesis
  proof (cases "BossResourceDjango ext req")
    case (Inl e)
    with rq assms show ?thesis by (simp add: BloscPythonParser_parse_def)
  next
    case (Inr res)
    note rs = this
    show ?thesis
    proof (cases "bit_depth res")
      case None
      with rq rs show ?thesis by (simp add: BloscPythonParser_parse_def)
    next
      case (Some bd)
      show ?thesis
      proof (cases "is_too_large (CUTOUT_MAX_SIZE ext) req bd")
        case (Inl e)
        with rq rs Some assms show ?thesis by (simp add: BloscPythonParser_parse_def)
      next
        case (Inr too_large)
        note tl = this
        show ?thesis
        proof (cases too_large)
          case True
          with rq rs Some tl show ?thesis by (simp add: BloscPythonParser_parse_def)
        next
          case False
          obtain r s' where d: "blosc_python_decode ext s = (r, s')"
            by (cases "blosc_python_decode ext s")
          with blosc_python_decode_snd [of ext s] have "s' = consume_request s" by simp
          with rq rs Some tl False d show ?thesis
            by (simp add: BloscPythonParser_parse_def split: sum.split)
        qed
      qed
    qed
  qed
qed

lemma NpygzParser_error_drained:
  assumes "fst (NpygzParser_parse ext s ctx) = BossParserError m c"
  shows "snd (NpygzParser_parse ext s ctx) = consume_request s"
proof (cases "make_request ext ctx")
  case (Inl e)
  then show ?thesis by (simp add: NpygzParser_parse_def)
next
  case (Inr req)
  note rq = this
  show ?thesis
  proof (cases "BossResourceDjango ext req")
    case (Inl e)
    with rq assms show ?thesis by (simp add: NpygzParser_parse_def)
  next
    case (Inr res)
    note rs = this
    show ?thesis
    proof (cases "bit_depth res")
      case None
      with rq rs show ?thesis by (simp add: NpygzParser_parse_def)
    next
      case (Some bd)
      show ?thesis
      proof (cases "is_too_large (CUTOUT_MAX_SIZE ext) req bd")
        case (Inl e)
        with rq rs Some assms show ?thesis by (simp add: NpygzParser_parse_def)
      next
        case (Inr too_large)
        note tl = this
        show ?thesis
        proof (cases too_large)
          case True
          with rq rs Some tl show ?thesis by (simp add: NpygzParser_parse_def)
        next
          case False
          obtain r s' where d: "npygz_decode ext s = (r, s')"
            by (cases "npygz_decode ext s")
          with npygz_decode_snd [of ext s] have "s' = consume_request s" by simp
          with rq rs Some tl False d show ?thesis
            by (simp add: NpygzParser_parse_def split: sum.split)
        qed
      qed
    qed
  qed
qed

text \<open>
  Whenever \<open>BloscPythonParser_parse\<close> or \<open>NpygzParser_parse\<close> returns an error, the
  stream has been read once more, and it is empty unless the read itself raised.
\<close>

theorem self_describing_errors_drain:
  "(fst (BloscPythonParser_parse ext s ctx) = BossParserError m c \<longrightarrow>
      snd (BloscPythonParser_parse ext s ctx) = consume_request s)
   \<and> (fst (NpygzParser_parse ext s ctx) = BossParserError m c \<longrightarrow>
      snd (NpygzParser_parse ext s ctx) = consume_request s)
   \<and> reads (consume_request s) = Suc (reads s)
   \<and> (read_raises s = None \<longrightarrow> unread (consume_request s) = [])"
proof -
  have "read_raises s = None \<longrightarrow> unread (consume_request s) = []"
    by (simp add: consume_request_def stream_read_def)
  with BloscPythonParser_error_drained [of ext s ctx m c]
    NpygzParser_error_drained [of ext s ctx m c] reads_consume_request [of s]
  show ?thesis by blast
qed

text \<open>
  \<open>BloscParser_parse\<close> returns its two errors that precede decompression, for an
  unsupported data type and for a request over the limit, with the stream untouched.
\<close>

theorem BloscParser_early_errors_skip_drain:
  assumes rq: "make_request ext ctx = Inr req"
    and rs: "BossResourceDjango ext req = Inr res"
    and early: "bit_depth res = None \<or>
                (\<exists>bd. bit_depth res = Some bd
                      \<and> is_too_large (CUTOUT_MAX_SIZE ext) req bd = Inr True)"
  shows "snd (BloscParser_parse ext s ctx) = s
         \<and> (\<exists>m c. fst (BloscParser_parse ext s ctx) = BossParserError m c
                \<and> (c = TYPE_ERROR \<or> c = REQUEST_TOO_LARGE))"
  using early
proof
  assume "bit_depth res = None"
  with rq rs show ?thesis by (simp add: BloscParser_parse_def)
next
  assume "\<exists>bd. bit_depth res = Some bd \<and> is_too_large (CUTOUT_MAX_SIZE ext) req bd = Inr True"
  then obtain bd where "bit_depth res = Some bd"
      "is_too_large (CUTOUT_MAX_SIZE ext) req bd = Inr True"
    by blast
  with rq rs show ?thesis by (simp add: BloscParser_parse_def)
qed

text \<open>
  What each parser makes of an exception raised in its decompression block:
  \<open>BloscParser_parse\<close> returns an error for every exception, the other two return an
  error for \<^verbatim>\<open>MemoryError\<close> and \<^verbatim>\<open>EOFError\<close> and raise everything else.
\<close>

theorem decompression_failures:
  assumes rq: "make_request ext ctx = Inr req"
    and rs: "BossResourceDjango ext req = Inr res"
    and bd: "bit_depth res = Some bd"
    and sz: "is_too_large (CUTOUT_MAX_SIZE ext) req bd = Inr False"
  shows "(blosc_decode ext res s = (Inl e, s') \<longrightarrow>
            BloscParser_parse ext s ctx =
              ((case e of MemoryError m \<Rightarrow> BossParserError msg_memory BOSS_SYSTEM_ERROR
                | _ \<Rightarrow> BossParserError msg_decompress DATATYPE_DOES_NOT_MATCH), s'))
         \<and> (blosc_python_decode ext s = (Inl e, s') \<longrightarrow>
            BloscPythonParser_parse ext s ctx =
              ((case e of MemoryError m \<Rightarrow> BossParserError msg_memory BOSS_SYSTEM_ERROR
                | EOFError m \<Rightarrow> BossParserError msg_unpack DATA_DIMENSION_MISMATCH
                | _ \<Rightarrow> Raised e), s'))
         \<and> (npygz_decode ext s = (Inl e, s') \<longrightarrow>
            NpygzParser_parse ext s ctx =
              ((case e of MemoryError m \<Rightarrow> BossParserError msg_memory BOSS_SYSTEM_ERROR
                | EOFError m \<Rightarrow> BossParserError msg_unpack DATA_DIMENSION_MISMATCH
                | _ \<Rightarrow> Raised e), s'))"
proof -
  have a: "blosc_failure e = (case e of MemoryError m \<Rightarrow> BossParserError msg_memory BOSS_SYSTEM_ERROR
                | _ \<Rightarrow> BossParserError msg_decompress DATATYPE_DOES_NOT_MATCH)"
    by (cases e) simp_all
  have b: "unpack_failure e = (case e of MemoryError m \<Rightarrow> BossParserError msg_memory BOSS_SYSTEM_ERROR
                | EOFError m \<Rightarrow> BossParserError msg_unpack DATA_DIMENSION_MISMATCH
                | _ \<Rightarrow> Raised e)"
    by (cases e) simp_all
  have 1: "blosc_decode ext res s = (Inl e, s') \<longrightarrow>
            BloscParser_parse ext s ctx = (blosc_failure e, s')"
    using rq rs bd sz by (simp add: BloscParser_parse_def)
  have 2: "blosc_python_decode ext s = (Inl e, s') \<longrightarrow>
            BloscPythonParser_parse ext s ctx = (unpack_failure e, s')"
    using rq rs bd sz by (simp add: BloscPythonParser_parse_def)
  have 3: "npygz_decode ext s = (Inl e, s') \<longrightarrow>
            NpygzParser_parse ext s ctx = (unpack_failure e, s')"
    using rq rs bd sz by (simp add: NpygzParser_parse_def)
  from 1 2 3 show ?thesis unfolding a b by (intro conjI)
qed

subsection \<open>The parsers on concrete inputs\<close>

lemma example_make_request:
  "make_request (example_externals req res) example_context = Inr req"
  by (simp add: make_request_def make_request_args_def example_externals_def example_context_def)

lemma example_resource:
  "BossResourceDjango (example_externals req res) req' = Inr res"
  by (simp add: example_externals_def)

theorem BloscParser_reshape_witness:
  "make_request (example_externals small_request uint8_resource) example_context = Inr small_request
   \<and> is_too_large (CUTOUT_MAX_SIZE (example_externals small_request uint8_resource)) small_request 8
       = Inr False
   \<and> blosc_decode (example_externals small_request uint8_resource) uint8_resource sound_body
       = (Inr \<lparr>shape = [4], itemsize = 1, elems = [[10], [20], [30], [40]]\<rparr>,
          \<lparr>unread = [], read_raises = None, reads = 1\<rparr>)
   \<and> BloscParser_parse (example_externals small_request uint8_resource) sound_body example_context
       = (Parsed small_request uint8_resource
            \<lparr>shape = [1, 2, 2], itemsize = 1, elems = [[10], [20], [30], [40]]\<rparr>,
          \<lparr>unread = [], read_raises = None, reads = 1\<rparr>)
   \<and> nd_item \<lparr>shape = [1, 2, 2], itemsize = 1, elems = [[10], [20], [30], [40]]\<rparr> [0, 1, 0] = [30]"
proof -
  let ?E = "example_externals small_request uint8_resource"
  let ?D = "\<lparr>shape = [4], itemsize = 1, elems = [[10], [20], [30], [40 :: 8 word]]\<rparr>"
  let ?S = "\<lparr>unread = [], read_raises = None, reads = 1\<rparr>"
  have h1: "make_request ?E example_context = Inr small_request"
    by (rule example_make_request)
  have h2: "BossResourceDjango ?E small_request = Inr uint8_resource"
    by (rule example_resource)
  have h3: "bit_depth uint8_resource = Some 8" by (simp add: uint8_resource_def)
  have h4: "is_too_large (CUTOUT_MAX_SIZE ?E) small_request 8 = Inr False" by code_simp
  have h5: "blosc_decode ?E uint8_resource sound_body = (Inr ?D, ?S)" by code_simp
  have t: "target_shape small_request = [1, 2, 2]" by code_simp
  have n: "time_request small_request = False" by (simp add: small_request_def)
  have u: "?D\<lparr>shape := [1, 2, 2]\<rparr>
      = \<lparr>shape = [1, 2, 2], itemsize = 1, elems = [[10], [20], [30], [40]]\<rparr>"
    by simp
  have l: "(length (elems ?D) = prod_list [1, 2, 2]) = True" by simp
  note inst = BloscParser_reshape [OF h1 h2 h3 h4 h5, unfolded t n u l if_True if_False]
  note c1 = inst [THEN conjunct1]
  note c3 = inst [THEN conjunct2, THEN conjunct2, rule_format, of 0 1 0]
  from c3 have c2: "nd_item \<lparr>shape = [1, 2, 2], itemsize = 1, elems = [[10], [20], [30], [40]]\<rparr>
      [0, 1, 0] = [30]"
    by (simp add: small_request_def)
  from h1 h4 h5 c1 c2 show ?thesis by (intro conjI)
qed

theorem self_describing_array_returned_unchecked_witness:
  "make_request (example_externals small_request uint8_resource) example_context = Inr small_request
   \<and> is_too_large (CUTOUT_MAX_SIZE (example_externals small_request uint8_resource)) small_request 8
       = Inr False
   \<and> npygz_decode (example_externals small_request uint8_resource) sound_body
       = (Inr \<lparr>shape = [4], itemsize = 1, elems = [[10], [20], [30], [40]]\<rparr>,
          \<lparr>unread = [], read_raises = None, reads = 1\<rparr>)
   \<and> NpygzParser_parse (example_externals small_request uint8_resource) sound_body example_context
       = (Parsed small_request uint8_resource
            \<lparr>shape = [4], itemsize = 1, elems = [[10], [20], [30], [40]]\<rparr>,
          \<lparr>unread = [], read_raises = None, reads = 1\<rparr>)
   \<and> BloscPythonParser_parse (example_externals small_request uint8_resource) sound_body
        example_context
       = (Parsed small_request uint8_resource
            \<lparr>shape = [4], itemsize = 1, elems = [[10], [20], [30], [40]]\<rparr>,
          \<lparr>unread = [], read_raises = None, reads = 1\<rparr>)"
proof -
  let ?E = "example_externals small_request uint8_resource"
  let ?D = "\<lparr>shape = [4], itemsize = 1, elems = [[10], [20], [30], [40 :: 8 word]]\<rparr>"
  let ?S = "\<lparr>unread = [], read_raises = None, reads = 1\<rparr>"
  have h1: "make_request ?E example_context = Inr small_request"
    by (rule example_make_request)
  have h2: "BossResourceDjango ?E small_request = Inr uint8_resource"
    by (rule example_resource)
  have h3: "bit_depth uint8_resource = Some 8" by (simp add: uint8_resource_def)
  have h4: "is_too_large (CUTOUT_MAX_SIZE ?E) small_request 8 = Inr False" by code_simp
  have h5: "npygz_decode ?E sound_body = (Inr ?D, ?S)" by code_simp
  have h6: "blosc_python_decode ?E sound_body = (Inr ?D, ?S)" by code_simp
  from self_describing_array_returned_unchecked [OF h1 h2 h3 h4, of sound_body ?D ?S] h5 h6
  have c: "NpygzParser_parse ?E sound_body example_context = (Parsed small_request uint8_resource ?D, ?S)"
    "BloscPythonParser_parse ?E sound_body example_context = (Parsed small_request uint8_resource ?D, ?S)"
    by blast+
  from h1 h4 h5 c show ?thesis by (intro conjI)
qed

text \<open>
  A body that decodes to a flat array of three one-byte elements, sent for a request
  of \<open>1 \<times> 2 \<times> 2\<close> voxels on a resource of 8-byte elements: both parsers return the
  array as decoded, with neither the shape nor the element size of the request.
\<close>

theorem self_describing_array_returned_unchecked_counterexample:
  "NpygzParser_parse (example_externals small_request uint64_resource) short_body example_context
     = (Parsed small_request uint64_resource
          \<lparr>shape = [3], itemsize = 1, elems = [[7], [8], [9]]\<rparr>,
        \<lparr>unread = [], read_raises = None, reads = 1\<rparr>)
   \<and> BloscPythonParser_parse (example_externals small_request uint64_resource) short_body
        example_context
     = (Parsed small_request uint64_resource
          \<lparr>shape = [3], itemsize = 1, elems = [[7], [8], [9]]\<rparr>,
        \<lparr>unread = [], read_raises = None, reads = 1\<rparr>)
   \<and> shape \<lparr>shape = [3], itemsize = 1, elems = [[7], [8], [9 :: 8 word]]\<rparr>
       \<noteq> [z_span small_request, y_span small_request, x_span small_request]
   \<and> length (elems \<lparr>shape = [3], itemsize = 1, elems = [[7], [8], [9 :: 8 word]]\<rparr>)
       \<noteq> z_span small_request * y_span small_request * x_span small_request
   \<and> Some (itemsize \<lparr>shape = [3], itemsize = 1, elems = [[7], [8], [9 :: 8 word]]\<rparr>)
       \<noteq> numpy_data_type uint64_resource"
  by code_simp

theorem too_large_before_decompression_witness:
  "make_request (example_externals large_request uint8_resource) example_context = Inr large_request
   \<and> \<bar>CUTOUT_MAX_SIZE (example_externals large_request uint8_resource)\<bar> < 2 ^ 48
   \<and> \<bar>int (x_span large_request) * int (y_span large_request) * int (z_span large_request)
        * (time_stop large_request - time_start large_request) * 8\<bar> < 2 ^ 1024
   \<and> byte_volume large_request 8
       > of_int (CUTOUT_MAX_SIZE (example_externals large_request uint8_resource))
   \<and> BloscParser_parse (example_externals large_request uint8_resource) corrupt_body example_context
       = (BossParserError msg_too_large REQUEST_TOO_LARGE, corrupt_body)
   \<and> BloscPythonParser_parse (example_externals large_request uint8_resource) corrupt_body
        example_context
       = (BossParserError msg_too_large REQUEST_TOO_LARGE, consume_request corrupt_body)
   \<and> NpygzParser_parse (example_externals large_request uint8_resource) corrupt_body
        example_context
       = (BossParserError msg_too_large REQUEST_TOO_LARGE, consume_request corrupt_body)"
proof -
  let ?E = "example_externals large_request uint8_resource"
  have h1: "make_request ?E example_context = Inr large_request"
    by (rule example_make_request)
  have h2: "BossResourceDjango ?E large_request = Inr uint8_resource"
    by (rule example_resource)
  have h3: "bit_depth uint8_resource = Some 8" by (simp add: uint8_resource_def)
  have v: "byte_volume large_request 8 > of_int (CUTOUT_MAX_SIZE ?E)"
    by (simp add: byte_volume_def large_request_def example_externals_def)
  then have h4: "(if (8::int) = 64 then byte_volume large_request 8 / 4
                  else byte_volume large_request 8) > of_int (CUTOUT_MAX_SIZE ?E)"
    by simp
  have b1: "\<bar>CUTOUT_MAX_SIZE ?E\<bar> < 2 ^ 48"
    by (simp add: example_externals_def)
  have "\<bar>8000000000 :: int\<bar> < 2 ^ 1024"
    by (rule less_le_trans [of _ "2 ^ 48"]) (simp, rule power_increasing, simp_all)
  then have b2: "\<bar>int (x_span large_request) * int (y_span large_request)
        * int (z_span large_request)
        * (time_stop large_request - time_start large_request) * 8\<bar> < 2 ^ 1024"
    by (simp add: large_request_def)
  note inst = too_large_before_decompression [OF h1 h2 h3 b1 b2 h4, of corrupt_body]
  from inst have c1: "BloscParser_parse ?E corrupt_body example_context
       = (BossParserError msg_too_large REQUEST_TOO_LARGE, corrupt_body)"
    by (rule conjunct1)
  from inst have c2: "BloscPythonParser_parse ?E corrupt_body example_context
       = (BossParserError msg_too_large REQUEST_TOO_LARGE, consume_request corrupt_body)"
    by blast
  from inst have c3: "NpygzParser_parse ?E corrupt_body example_context
       = (BossParserError msg_too_large REQUEST_TOO_LARGE, consume_request corrupt_body)"
    by blast
  from h1 b1 b2 v c1 c2 c3 show ?thesis by (intro conjI)
qed

text \<open>
  A request of \<open>1000 \<times> 1000 \<times> 100\<close> voxels at 64 bits: its byte volume of 800000000
  exceeds the ceiling of 520000000, yet the relaxed size check passes, the corrupt
  body is decompressed, and the result is the \<open>DATATYPE_DOES_NOT_MATCH\<close> error.
\<close>

theorem too_large_before_decompression_counterexample:
  "byte_volume annotation_request 64
     > of_int (CUTOUT_MAX_SIZE (example_externals annotation_request uint64_resource))
   \<and> bit_depth uint64_resource = Some 64
   \<and> BloscParser_parse (example_externals annotation_request uint64_resource) corrupt_body
        example_context
     = (BossParserError msg_decompress DATATYPE_DOES_NOT_MATCH,
        \<lparr>unread = [], read_raises = None, reads = 1\<rparr>)"
proof -
  have a: "byte_volume annotation_request 64
     > of_int (CUTOUT_MAX_SIZE (example_externals annotation_request uint64_resource))"
    by (simp add: byte_volume_def annotation_request_def example_externals_def)
  have b: "bit_depth uint64_resource = Some 64"
    by (simp add: uint64_resource_def)
  have c: "BloscParser_parse (example_externals annotation_request uint64_resource) corrupt_body
        example_context
     = (BossParserError msg_decompress DATATYPE_DOES_NOT_MATCH,
        \<lparr>unread = [], read_raises = None, reads = 1\<rparr>)"
    by code_simp
  from a b c show ?thesis by (intro conjI)
qed

text \<open>
  Claim C1 on a concrete input. \<open>BloscParser_parse\<close> returns the errors for an
  over-limit request and for an unsupported data type with the body unread (no call of
  \<^verbatim>\<open>read\<close>, all five bytes still in the stream), where \<open>BloscPythonParser_parse\<close> and
  \<open>NpygzParser_parse\<close> drain the stream before the same returns.
\<close>

theorem BloscParser_early_errors_leave_body_unread:
  "BloscParser_parse (example_externals large_request uint8_resource) sound_body example_context
     = (BossParserError msg_too_large REQUEST_TOO_LARGE,
        \<lparr>unread = [1, 10, 20, 30, 40], read_raises = None, reads = 0\<rparr>)
   \<and> BloscParser_parse (example_externals small_request float32_resource) sound_body
        example_context
     = (BossParserError (msg_unsupported float32_resource) TYPE_ERROR,
        \<lparr>unread = [1, 10, 20, 30, 40], read_raises = None, reads = 0\<rparr>)
   \<and> BloscPythonParser_parse (example_externals large_request uint8_resource) sound_body
        example_context
     = (BossParserError msg_too_large REQUEST_TOO_LARGE,
        \<lparr>unread = [], read_raises = None, reads = 1\<rparr>)
   \<and> NpygzParser_parse (example_externals small_request float32_resource) sound_body
        example_context
     = (BossParserError (msg_unsupported float32_resource) TYPE_ERROR,
        \<lparr>unread = [], read_raises = None, reads = 1\<rparr>)"
  by code_simp

text \<open>
  Claim C7 on a concrete input. A body that is no compressed stream makes the codec
  raise its own error class: \<open>BloscParser_parse\<close> turns it into the
  \<open>DATATYPE_DOES_NOT_MATCH\<close> error, while \<open>NpygzParser_parse\<close> and
  \<open>BloscPythonParser_parse\<close>, which handle \<^verbatim>\<open>MemoryError\<close> and \<^verbatim>\<open>EOFError\<close> only, let
  the exception leave \<^verbatim>\<open>parse\<close>.
\<close>

theorem corrupt_payload_raises:
  "NpygzParser_parse (example_externals small_request uint8_resource) corrupt_body example_context
     = (Raised (OtherException ''zlib.error'' ''incorrect header check''),
        \<lparr>unread = [], read_raises = None, reads = 1\<rparr>)
   \<and> BloscPythonParser_parse (example_externals small_request uint8_resource) corrupt_body
        example_context
     = (Raised (OtherException ''blosc_extension.error'' ''incorrect header check''),
        \<lparr>unread = [], read_raises = None, reads = 1\<rparr>)
   \<and> BloscParser_parse (example_externals small_request uint8_resource) corrupt_body
        example_context
     = (BossParserError msg_decompress DATATYPE_DOES_NOT_MATCH,
        \<lparr>unread = [], read_raises = None, reads = 1\<rparr>)"
  by code_simp

theorem self_describing_errors_drain_witness:
  "fst (BloscPythonParser_parse (example_externals large_request uint8_resource) sound_body
          example_context) = BossParserError msg_too_large REQUEST_TOO_LARGE
   \<and> snd (BloscPythonParser_parse (example_externals large_request uint8_resource) sound_body
          example_context) = consume_request sound_body
   \<and> fst (NpygzParser_parse (example_externals small_request float32_resource) sound_body
          example_context) = BossParserError (msg_unsupported float32_resource) TYPE_ERROR
   \<and> snd (NpygzParser_parse (example_externals small_request float32_resource) sound_body
          example_context) = consume_request sound_body
   \<and> read_raises sound_body = None
   \<and> consume_request sound_body = \<lparr>unread = [], read_raises = None, reads = 1\<rparr>"
proof -
  let ?E = "example_externals large_request uint8_resource"
  let ?F = "example_externals small_request float32_resource"
  have h1: "fst (BloscPythonParser_parse ?E sound_body example_context)
      = BossParserError msg_too_large REQUEST_TOO_LARGE"
    by code_simp
  have h2: "fst (NpygzParser_parse ?F sound_body example_context)
      = BossParserError (msg_unsupported float32_resource) TYPE_ERROR"
    by code_simp
  have h3: "read_raises sound_body = None" by (simp add: sound_body_def)
  have h4: "consume_request sound_body = \<lparr>unread = [], read_raises = None, reads = 1\<rparr>"
    by code_simp
  from self_describing_errors_drain
    [of ?E sound_body example_context msg_too_large REQUEST_TOO_LARGE] h1
  have c1: "snd (BloscPythonParser_parse ?E sound_body example_context)
      = consume_request sound_body"
    by blast
  from self_describing_errors_drain
    [of ?F sound_body example_context "msg_unsupported float32_resource" TYPE_ERROR] h2
  have c2: "snd (NpygzParser_parse ?F sound_body example_context) = consume_request sound_body"
    by blast
  from h1 c1 h2 c2 h3 h4 show ?thesis by (intro conjI)
qed

theorem BloscParser_early_errors_skip_drain_witness:
  "make_request (example_externals large_request uint8_resource) example_context
     = Inr large_request
   \<and> bit_depth uint8_resource = Some 8
   \<and> is_too_large (CUTOUT_MAX_SIZE (example_externals large_request uint8_resource))
        large_request 8 = Inr True
   \<and> snd (BloscParser_parse (example_externals large_request uint8_resource) sound_body
          example_context) = sound_body
   \<and> (\<exists>m c. fst (BloscParser_parse (example_externals large_request uint8_resource) sound_body
          example_context) = BossParserError m c \<and> (c = TYPE_ERROR \<or> c = REQUEST_TOO_LARGE))"
proof -
  let ?E = "example_externals large_request uint8_resource"
  have h1: "make_request ?E example_context = Inr large_request"
    by (rule example_make_request)
  have h2: "BossResourceDjango ?E large_request = Inr uint8_resource"
    by (rule example_resource)
  have h3: "bit_depth uint8_resource = Some 8" by (simp add: uint8_resource_def)
  have h4: "is_too_large (CUTOUT_MAX_SIZE ?E) large_request 8 = Inr True" by code_simp
  from h3 h4 have h5: "bit_depth uint8_resource = None \<or>
      (\<exists>bd. bit_depth uint8_resource = Some bd
            \<and> is_too_large (CUTOUT_MAX_SIZE ?E) large_request bd = Inr True)"
    by blast
  note inst = BloscParser_early_errors_skip_drain [OF h1 h2 h5, of sound_body]
  from h1 h3 h4 inst show ?thesis by (intro conjI) blast+
qed

theorem decompression_failures_witness:
  "make_request (example_externals small_request uint8_resource) example_context
     = Inr small_request
   \<and> is_too_large (CUTOUT_MAX_SIZE (example_externals small_request uint8_resource))
        small_request 8 = Inr False
   \<and> npygz_decode (example_externals small_request uint8_resource) corrupt_body
       = (Inl (OtherException ''zlib.error'' ''incorrect header check''),
          \<lparr>unread = [], read_raises = None, reads = 1\<rparr>)
   \<and> NpygzParser_parse (example_externals small_request uint8_resource) corrupt_body
        example_context
       = (Raised (OtherException ''zlib.error'' ''incorrect header check''),
          \<lparr>unread = [], read_raises = None, reads = 1\<rparr>)"
proof -
  let ?E = "example_externals small_request uint8_resource"
  let ?e = "OtherException ''zlib.error'' ''incorrect header check''"
  let ?S = "\<lparr>unread = [], read_raises = None, reads = 1\<rparr>"
  have h1: "make_request ?E example_context = Inr small_request"
    by (rule example_make_request)
  have h2: "BossResourceDjango ?E small_request = Inr uint8_resource"
    by (rule example_resource)
  have h3: "bit_depth uint8_resource = Some 8" by (simp add: uint8_resource_def)
  have h4: "is_too_large (CUTOUT_MAX_SIZE ?E) small_request 8 = Inr False" by code_simp
  have h5: "npygz_decode ?E corrupt_body = (Inl ?e, ?S)" by code_simp
  from decompression_failures [OF h1 h2 h3 h4, of corrupt_body ?e ?S] h5
  have "NpygzParser_parse ?E corrupt_body example_context =
      ((case ?e of MemoryError m \<Rightarrow> BossParserError msg_memory BOSS_SYSTEM_ERROR
                | EOFError m \<Rightarrow> BossParserError msg_unpack DATA_DIMENSION_MISMATCH
                | _ \<Rightarrow> Raised ?e), ?S)"
    by blast
  then have c: "NpygzParser_parse ?E corrupt_body example_context = (Raised ?e, ?S)"
    by simp
  from h1 h4 h5 c show ?thesis by (intro conjI)
qed

subsection \<open>The size check on concrete inputs\<close>

theorem is_too_large_iff_witness:
  "\<bar>520000000 :: int\<bar> < 2 ^ 48
   \<and> \<bar>int (x_span large_request) * int (y_span large_request) * int (z_span large_request)
        * (time_stop large_request - time_start large_request) * 8\<bar> < 2 ^ 1024
   \<and> \<bar>int (x_span annotation_request) * int (y_span annotation_request)
        * int (z_span annotation_request)
        * (time_stop annotation_request - time_start annotation_request) * 64\<bar> < 2 ^ 1024
   \<and> byte_volume large_request 8 = 1000000000
   \<and> is_too_large 520000000 large_request 8 = Inr True
   \<and> byte_volume annotation_request 64 = 800000000
   \<and> is_too_large 520000000 annotation_request 64 = Inr False
   \<and> is_too_large 520000000 annotation_request 8 = Inr False"
proof -
  have small: "\<And>n :: int. \<bar>n\<bar> < 2 ^ 48 \<Longrightarrow> \<bar>n\<bar> < 2 ^ 1024"
    by (rule less_le_trans, assumption, rule power_increasing, simp_all)
  have h1: "\<bar>520000000 :: int\<bar> < 2 ^ 48" by simp
  have h2: "\<bar>int (x_span large_request) * int (y_span large_request) * int (z_span large_request)
        * (time_stop large_request - time_start large_request) * 8\<bar> < 2 ^ 1024"
    by (rule small) (simp add: large_request_def)
  have h3: "\<bar>int (x_span annotation_request) * int (y_span annotation_request)
        * int (z_span annotation_request)
        * (time_stop annotation_request - time_start annotation_request) * 64\<bar> < 2 ^ 1024"
    by (rule small) (simp add: annotation_request_def)
  have h4: "\<bar>int (x_span annotation_request) * int (y_span annotation_request)
        * int (z_span annotation_request)
        * (time_stop annotation_request - time_start annotation_request) * 8\<bar> < 2 ^ 1024"
    by (rule small) (simp add: annotation_request_def)
  have v1: "byte_volume large_request 8 = 1000000000"
    by (simp add: byte_volume_def large_request_def)
  have v2: "byte_volume annotation_request 64 = 800000000"
    by (simp add: byte_volume_def annotation_request_def)
  have v3: "byte_volume annotation_request 8 = 100000000"
    by (simp add: byte_volume_def annotation_request_def)
  from is_too_large_iff [OF h1 h2, THEN conjunct1]
  have c1: "is_too_large 520000000 large_request 8 = Inr True"
    by (simp add: v1)
  from is_too_large_iff [OF h1 h3, THEN conjunct1]
  have c2: "is_too_large 520000000 annotation_request 64 = Inr False"
    by (simp add: v2)
  from is_too_large_iff [OF h1 h4, THEN conjunct1]
  have c3: "is_too_large 520000000 annotation_request 8 = Inr False"
    by (simp add: v3)
  from h1 h2 h3 v1 c1 v2 c2 c3 show ?thesis by (intro conjI)
qed

text \<open>The product of \<open>wide_request\<close> at 8 bits is a tie between two doubles.\<close>

lemma bit_length_wide: "bit_length 72057594037927944 = 57"
  by (simp add: bit_length.simps)

lemma round_to_double_wide: "round_to_double 72057594037927944 = 72057594037927936"
  by (simp add: round_to_double_def round_bits_def Let_def bit_length_wide)

text \<open>
  With a ceiling of \<open>2 ^ 53\<close> bytes, a request of \<open>2 ^ 53 + 1\<close> voxels of 8 bits has a
  byte volume above the ceiling, yet \<open>is_too_large\<close> returns false: the division
  rounds the volume down to \<open>2 ^ 53\<close>. With the ceiling of 520000000 bytes, a request
  of \<open>2 ^ 1024\<close> voxels of 8 bits has a byte volume above the ceiling, and
  \<open>is_too_large\<close> raises \<^verbatim>\<open>OverflowError\<close>, and so does \<open>BloscParser_parse\<close>.
\<close>

theorem is_too_large_iff_counterexample:
  "byte_volume wide_request 8 > of_int 9007199254740992
   \<and> is_too_large 9007199254740992 wide_request 8 = Inr False
   \<and> byte_volume huge_request 8 > of_int 520000000
   \<and> is_too_large 520000000 huge_request 8
       = Inl (OtherException ''OverflowError'' ''integer division result too large for a float'')
   \<and> BloscParser_parse (example_externals huge_request uint8_resource) sound_body example_context
       = (Raised (OtherException ''OverflowError''
                    ''integer division result too large for a float''), sound_body)"
proof -
  let ?o = "OtherException ''OverflowError'' ''integer division result too large for a float''"
  have a: "byte_volume wide_request 8 > of_int 9007199254740992"
    by (simp add: byte_volume_def wide_request_def)
  have p: "int (x_span wide_request) * int (y_span wide_request) * int (z_span wide_request)
             * (time_stop wide_request - time_start wide_request) * 8 = 72057594037927944"
    by (simp add: wide_request_def)
  have "\<bar>72057594037927944 :: int\<bar> < 2 ^ 1024"
    by (rule less_le_trans [of _ "2 ^ 57"]) (simp, rule power_increasing, simp_all)
  then have "\<not> 1027 < bit_length \<bar>round_to_double 72057594037927944\<bar>"
    by (rule round_to_double_in_range)
  then have b: "is_too_large 9007199254740992 wide_request 8 = Inr False"
    by (simp add: is_too_large_rounded p round_to_double_wide)
  have e: "(2::int) ^ 1027 = 2 ^ 1024 * 8"
  proof -
    have "(2::int) ^ (1024 + 3) = 2 ^ 1024 * 2 ^ 3" by (rule power_add)
    then show ?thesis by simp
  qed
  have "(520000000::rat) < 2 ^ 48" by simp
  also have "\<dots> \<le> 2 ^ 1024" by (rule power_increasing) simp_all
  finally have c: "byte_volume huge_request 8 > of_int 520000000"
    by (simp add: byte_volume_def huge_request_def)
  have d: "is_too_large 520000000 huge_request 8 = Inl ?o"
    by (rule is_too_large_overflow) (simp add: huge_request_def e)
  have h1: "make_request (example_externals huge_request uint8_resource) example_context
              = Inr huge_request"
    by (rule example_make_request)
  have h2: "BossResourceDjango (example_externals huge_request uint8_resource) huge_request
              = Inr uint8_resource"
    by (rule example_resource)
  have h3: "bit_depth uint8_resource = Some 8" by (simp add: uint8_resource_def)
  have h4: "CUTOUT_MAX_SIZE (example_externals huge_request uint8_resource) = 520000000"
    by (simp add: example_externals_def)
  have f: "BloscParser_parse (example_externals huge_request uint8_resource) sound_body
             example_context = (Raised ?o, sound_body)"
    by (simp add: BloscParser_parse_def h1 h2 h3 h4 d)
  from a b c d f show ?thesis by (intro conjI)
qed

end
